theory Spec2Isabelle
  imports Complex_Main "HOL-Library.Log_Nat"
begin

section \<open>The adaptive video transcoding pipeline of \<^verbatim>\<open>src/lib/video-streaming.ts\<close>\<close>

text \<open>
  The development embeds the media inspector (\<^verbatim>\<open>FFmpegProcessor.probe\<close>), the variant
  planner (\<^verbatim>\<open>generateOptimalVariants\<close>), the thumbnail and HLS steps
  (\<^verbatim>\<open>generateThumbnails\<close>, \<^verbatim>\<open>createHLSPlaylist\<close>), the pipeline
  (\<^verbatim>\<open>processVideoWithAdaptiveStreaming\<close>) and the job registry
  (\<^verbatim>\<open>VideoProcessingQueue\<close>).

  Conventions of the embedding.
  \<^item> Widths, heights, bitrates, exit codes and thumbnail counts are \<open>int\<close>: the values the
    code handles there are the integers of the ffprobe report and of the fixed ladder, of
    magnitude below \<open>2^53\<close>, on which the arithmetic of doubles (\<^verbatim>\<open>count + 1\<close>,
    \<^verbatim>\<open>i++\<close>, \<^verbatim>\<open>bitrate * 1000\<close>) is exact.
  \<^item> The numbers that the code obtains by parsing text (duration, container bitrate, frame
    rate) and computes from them are \<open>jsnum\<close>: a finite IEEE 754 double given by its exact
    rational value, an infinity, or \<open>NaN\<close>. Division and multiplication round to the nearest
    double, ties to even, as the language defines them. The two zeros are one value: they
    print alike and the module never divides by a computed zero.
  \<^item> A rejected promise or a thrown exception is the \<open>Inl\<close> of a sum type.
  \<^item> Every external effect (a spawned process, a file-system call, a JavaScript builtin
    that parses text) is a field of the record \<open>env\<close>: the model is a function of what the
    outside world answers.
\<close>

subsection \<open>Data model\<close>

datatype jsnum = Num rat | PosInf | NegInf | NaN

text \<open>Rounding to the nearest integer, a tie going to the even one.\<close>

definition roundHalfEven :: "rat \<Rightarrow> int" where
  "roundHalfEven x =
    (let f = \<lfloor>x\<rfloor>; r = x - of_int f
     in if r < 1 / 2 then f else if 1 / 2 < r then f + 1 else if even f then f else f + 1)"

text \<open>The binary exponent of a positive rational: \<open>2^e \<le> x < 2^(e+1)\<close>.\<close>

definition floorlog2 :: "rat \<Rightarrow> int" where
  "floorlog2 x = (if 1 \<le> x then bitlen \<lfloor>x\<rfloor> - 1 else - bitlen (\<lceil>1 / x\<rceil> - 1))"

text \<open>
  The double nearest to an exact result (binary64: 53 significant bits, a least exponent
  of \<open>-1074\<close> for the last bit, so that results below \<open>2^-1022\<close> are subnormal; round
  to nearest, ties to even; a rounded magnitude of \<open>2^1024\<close> or more overflows to an
  infinity).
\<close>

definition round_double :: "rat \<Rightarrow> jsnum" where
  "round_double x =
    (if x = 0 then Num 0
     else (let a = \<bar>x\<bar>;
               ue = max (floorlog2 a - 52) (- 1074);
               r = of_int (roundHalfEven (a / 2 powi ue)) * 2 powi ue
           in if 2 ^ 1024 \<le> r then (if 0 < x then PosInf else NegInf)
              else Num (if 0 < x then r else - r)))"

text \<open>
  \<^verbatim>\<open>x / n\<close> and \<^verbatim>\<open>x * n\<close> for a number \<open>x\<close> and an integer \<open>n\<close> (in the source
  \<^verbatim>\<open>duration / (count + 1)\<close> and \<^verbatim>\<open>interval * i\<close>).
\<close>

definition jsdiv :: "jsnum \<Rightarrow> int \<Rightarrow> jsnum" where
  "jsdiv x n =
    (case x of
       NaN \<Rightarrow> NaN
     | PosInf \<Rightarrow> if n < 0 then NegInf else PosInf
     | NegInf \<Rightarrow> if n < 0 then PosInf else NegInf
     | Num a \<Rightarrow>
         if n = 0 then (if 0 < a then PosInf else if a < 0 then NegInf else NaN)
         else round_double (a / of_int n))"

definition jsmul :: "jsnum \<Rightarrow> int \<Rightarrow> jsnum" where
  "jsmul x n =
    (case x of
       NaN \<Rightarrow> NaN
     | PosInf \<Rightarrow> if n = 0 then NaN else if n < 0 then NegInf else PosInf
     | NegInf \<Rightarrow> if n = 0 then NaN else if n < 0 then PosInf else NegInf
     | Num a \<Rightarrow> round_double (a * of_int n))"

text \<open>Decimal rendering of an integer, as a template literal does it.\<close>

function show_nat :: "nat \<Rightarrow> string" where
  "show_nat n = (if n < 10 then [''0123456789'' ! n]
                 else show_nat (n div 10) @ [''0123456789'' ! (n mod 10)])"
  by pat_completeness auto
termination
  by (relation "measure (\<lambda>n. n)") auto

definition show_int :: "int \<Rightarrow> string" where
  "show_int i = (if i < 0 then ''-'' @ show_nat (nat (- i)) else show_nat (nat i))"

text \<open>\<^verbatim>\<open>path.join\<close> of two segments; the normalisation of the result is not modelled.\<close>

definition path_join :: "string \<Rightarrow> string \<Rightarrow> string" where
  "path_join a b = a @ ''/'' @ b"

text \<open>
  How a spawned process ends: the \<^verbatim>\<open>close\<close> event with its exit code (\<open>None\<close> is the
  \<^verbatim>\<open>null\<close> code of a process ended by a signal), or the \<^verbatim>\<open>error\<close> event with the
  message of its error object.
\<close>

datatype proc_exit = Exited "int option" | SpawnFailed string

text \<open>The errors the module rejects with, one constructor per message.\<close>

datatype err =
    FFprobeFailed "int option"
  | NoVideoStream
  | FFprobeParseFailed
  | FFprobeError string
  | FFmpegNotFound
  | FFmpegExited "int option"
  | FFmpegSpawnError string
  | ThumbnailFailed "int option"
  | HLSFailed string
  | SpawnErr string
  | FsError string

text \<open>
  The parsed report of ffprobe (\<^verbatim>\<open>-show_format -show_streams\<close>), with the properties the
  code reads; \<open>None\<close> is a property that is absent.
\<close>

record ff_stream =
  codec_type :: "string option"
  codec_name :: "string option"
  st_width :: "int option"
  st_height :: "int option"
  r_frame_rate :: "string option"

record ff_format =
  fmt_duration :: "string option"
  bit_rate :: "string option"
  format_name :: "string option"

record ff_data =
  streams :: "ff_stream list option"
  format :: "ff_format option"

text \<open>The object \<^verbatim>\<open>probe\<close> resolves with (\<^verbatim>\<open>codecs.video\<close> and \<^verbatim>\<open>codecs.audio\<close> flattened).\<close>

record MediaProbe =
  duration :: jsnum
  probe_width :: int
  probe_height :: int
  probe_bitrate :: jsnum
  probe_fps :: jsnum
  probe_format :: string
  video_codec :: string
  audio_codec :: string

text \<open>The interface \<^verbatim>\<open>VideoVariant\<close>.\<close>

record VideoVariant =
  name :: string
  width :: int
  height :: int
  bitrate :: int
  codec :: string
  profile :: string
  level :: string
  bufsize :: int
  maxrate :: int
  fps :: int

text \<open>An entry of the local table \<^verbatim>\<open>qualityConfigs\<close> of the planner.\<close>

record QualityConfig =
  cfg_name :: string
  cfg_width :: int
  cfg_height :: int
  cfg_bitrate :: int
  maxSourceHeight :: int

subsection \<open>Variant planner\<close>

definition qualityConfigs :: "QualityConfig list" where
  "qualityConfigs =
    [ \<lparr>cfg_name = ''360p'', cfg_width = 640, cfg_height = 360, cfg_bitrate = 800, maxSourceHeight = 360\<rparr>,
      \<lparr>cfg_name = ''480p'', cfg_width = 854, cfg_height = 480, cfg_bitrate = 1200, maxSourceHeight = 480\<rparr>,
      \<lparr>cfg_name = ''720p'', cfg_width = 1280, cfg_height = 720, cfg_bitrate = 2500, maxSourceHeight = 720\<rparr>,
      \<lparr>cfg_name = ''1080p'', cfg_width = 1920, cfg_height = 1080, cfg_bitrate = 5000, maxSourceHeight = 1080\<rparr> ]"

text \<open>
  The object pushed for a ladder entry. \<^verbatim>\<open>config.bitrate * 1.5\<close> is an integer for each of
  the four even bitrates of the table, so it is written \<open>(b * 3) div 2\<close>.
\<close>

definition ladderVariant :: "QualityConfig \<Rightarrow> VideoVariant" where
  "ladderVariant config =
    \<lparr>name = cfg_name config, width = cfg_width config, height = cfg_height config,
     bitrate = cfg_bitrate config, codec = ''libx264'', profile = ''high'', level = ''4.0'',
     bufsize = cfg_bitrate config * 2, maxrate = (cfg_bitrate config * 3) div 2, fps = 30\<rparr>"

text \<open>The object pushed when no ladder entry was selected.\<close>

definition fallbackVariant :: "int \<Rightarrow> int \<Rightarrow> VideoVariant" where
  "fallbackVariant w h =
    \<lparr>name = ''auto'', width = min w 854, height = min h 480,
     bitrate = 1200, codec = ''libx264'', profile = ''high'', level = ''4.0'',
     bufsize = 2400, maxrate = 1800, fps = 30\<rparr>"

text \<open>
  \<^verbatim>\<open>generateOptimalVariants(width, height, duration)\<close>: the \<^verbatim>\<open>forEach\<close> pushes, in table
  order, the entries with \<^verbatim>\<open>height >= config.maxSourceHeight\<close>; an empty result is replaced
  by the single fallback. The duration is not read.
\<close>

definition generateOptimalVariants :: "int \<Rightarrow> int \<Rightarrow> jsnum \<Rightarrow> VideoVariant list" where
  "generateOptimalVariants w h dur =
    (let variants = map ladderVariant (filter (\<lambda>config. h \<ge> maxSourceHeight config) qualityConfigs)
     in if length variants = 0 then [fallbackVariant w h] else variants)"

subsection \<open>The outside world\<close>

text \<open>
  What the processes, the file system and the text-parsing builtins answer. A file-system
  call answers \<open>None\<close> when it resolves and \<open>Some msg\<close> when it rejects.
  \<^item> \<open>ffprobe p\<close>: how \<^verbatim>\<open>ffprobe ... p\<close> ends, and the text collected from its stdout;
  \<^item> \<open>JSON_parse\<close>: \<^verbatim>\<open>JSON.parse\<close>, \<open>None\<close> when it throws;
  \<^item> \<open>parseFloat\<close>, \<open>parseInt\<close>: the builtins on a string argument;
  \<^item> \<open>js_eval\<close>: \<^verbatim>\<open>eval\<close> on a string, \<open>None\<close> when it throws;
  \<^item> \<open>ffmpeg_version\<close>: how \<^verbatim>\<open>ffmpeg -version\<close> ends;
  \<^item> \<open>ffmpeg_thumbnail inp t out\<close>: how the single-frame extraction at \<open>t\<close> ends;
  \<^item> \<open>ffmpeg_hls inp v playlist\<close>: how the segmented encode of variant \<open>v\<close> ends;
  \<^item> \<open>ffmpeg_transcode inp out\<close>: how the transcode to \<open>out\<close> ends.
\<close>

record env =
  ffprobe :: "string \<Rightarrow> proc_exit \<times> string"
  JSON_parse :: "string \<Rightarrow> ff_data option"
  parseFloat :: "string \<Rightarrow> jsnum"
  parseInt :: "string \<Rightarrow> jsnum"
  js_eval :: "string \<Rightarrow> jsnum option"
  fs_mkdir :: "string \<Rightarrow> string option"
  fs_writeFile :: "string \<Rightarrow> string \<Rightarrow> string option"
  ffmpeg_version :: proc_exit
  ffmpeg_thumbnail :: "string \<Rightarrow> jsnum \<Rightarrow> string \<Rightarrow> proc_exit"
  ffmpeg_hls :: "string \<Rightarrow> VideoVariant \<Rightarrow> string \<Rightarrow> proc_exit"
  ffmpeg_transcode :: "string \<Rightarrow> string \<Rightarrow> proc_exit"

subsection \<open>Media inspector\<close>

text \<open>\<^verbatim>\<open>x || d\<close> on an optional string: absent and empty are falsy.\<close>

definition truthy :: "string option \<Rightarrow> string option" where
  "truthy x = (case x of None \<Rightarrow> None | Some s \<Rightarrow> if s = [] then None else Some s)"

text \<open>
  \<^verbatim>\<open>FFmpegProcessor.probe\<close>. The \<^verbatim>\<open>close\<close> handler rejects on a code other than 0; inside
  its \<^verbatim>\<open>try\<close>, \<^verbatim>\<open>JSON.parse\<close> may throw, \<^verbatim>\<open>data.streams.find\<close> throws when
  \<^verbatim>\<open>streams\<close> is absent, a missing video stream rejects, \<^verbatim>\<open>data.format.duration\<close> throws
  when \<^verbatim>\<open>format\<close> is absent and \<^verbatim>\<open>eval\<close> may throw; every throw is caught and rejects.
  \<^verbatim>\<open>parseFloat(0)\<close> and \<^verbatim>\<open>parseInt(0)\<close> are 0 and \<^verbatim>\<open>eval('0/1')\<close> is 0.
\<close>

definition probe :: "env \<Rightarrow> string \<Rightarrow> err + MediaProbe" where
  "probe e inputPath =
    (case ffprobe e inputPath of
       (SpawnFailed msg, output) \<Rightarrow> Inl (FFprobeError msg)
     | (Exited code, output) \<Rightarrow>
         if code \<noteq> Some 0 then Inl (FFprobeFailed code)
         else (case JSON_parse e output of
             None \<Rightarrow> Inl FFprobeParseFailed
           | Some data \<Rightarrow>
              (case streams data of
                 None \<Rightarrow> Inl FFprobeParseFailed
               | Some ss \<Rightarrow>
                  (let videoStream = find (\<lambda>s. codec_type s = Some ''video'') ss;
                       audioStream = find (\<lambda>s. codec_type s = Some ''audio'') ss
                   in case videoStream of
                        None \<Rightarrow> Inl NoVideoStream
                      | Some vs \<Rightarrow>
                         (case format data of
                            None \<Rightarrow> Inl FFprobeParseFailed
                          | Some f \<Rightarrow>
                             (case (case truthy (r_frame_rate vs) of
                                      None \<Rightarrow> Some (Num 0) | Some s \<Rightarrow> js_eval e s) of
                                None \<Rightarrow> Inl FFprobeParseFailed
                              | Some rate \<Rightarrow>
                                 Inr \<lparr>duration = (case truthy (fmt_duration f) of
                                                     None \<Rightarrow> Num 0 | Some s \<Rightarrow> parseFloat e s),
                                      probe_width = (case st_width vs of None \<Rightarrow> 0 | Some n \<Rightarrow> n),
                                      probe_height = (case st_height vs of None \<Rightarrow> 0 | Some n \<Rightarrow> n),
                                      probe_bitrate = (case truthy (bit_rate f) of
                                                     None \<Rightarrow> Num 0 | Some s \<Rightarrow> parseInt e s),
                                      probe_fps = rate,
                                      probe_format = (case truthy (format_name f) of
                                                     None \<Rightarrow> [] | Some s \<Rightarrow> s),
                                      video_codec = (case truthy (codec_name vs) of
                                                     None \<Rightarrow> [] | Some s \<Rightarrow> s),
                                      audio_codec = (case audioStream of
                                                     None \<Rightarrow> []
                                                   | Some as \<Rightarrow>
                                                       (case truthy (codec_name as) of
                                                          None \<Rightarrow> [] | Some s \<Rightarrow> s))\<rparr>))))))"

subsection \<open>Thumbnails\<close>

text \<open>The output path of iteration \<open>i\<close>: \<^verbatim>\<open>path.join(outputDir, `thumbnail_${i}.jpg`)\<close>.\<close>

definition thumbnailPath :: "string \<Rightarrow> int \<Rightarrow> string" where
  "thumbnailPath outputDir i = path_join outputDir (''thumbnail_'' @ show_int i @ ''.jpg'')"

text \<open>
  The \<^verbatim>\<open>for\<close> loop of \<^verbatim>\<open>generateThumbnails\<close>, from \<open>i\<close> on. \<open>thumbnails\<close> is the array
  of the source; \<open>requested\<close> logs the extractions spawned so far (timestamp and output
  path). A \<^verbatim>\<open>close\<close> with code 0 pushes the path and goes on; any other end rejects, which
  leaves the loop.
\<close>

function thumbnailLoop ::
  "env \<Rightarrow> string \<Rightarrow> string \<Rightarrow> jsnum \<Rightarrow> int \<Rightarrow> int \<Rightarrow> string list \<Rightarrow> (jsnum \<times> string) list
     \<Rightarrow> (jsnum \<times> string) list \<times> (err + string list)" where
  "thumbnailLoop e inputPath outputDir interval count i thumbnails requested =
    (if i \<le> count then
       (let timestamp = jsmul interval i;
            outputPath = thumbnailPath outputDir i
        in case ffmpeg_thumbnail e inputPath timestamp outputPath of
             Exited code \<Rightarrow>
               if code = Some 0
               then thumbnailLoop e inputPath outputDir interval count (i + 1)
                      (thumbnails @ [outputPath]) (requested @ [(timestamp, outputPath)])
               else (requested @ [(timestamp, outputPath)], Inl (ThumbnailFailed code))
           | SpawnFailed msg \<Rightarrow> (requested @ [(timestamp, outputPath)], Inl (SpawnErr msg)))
     else (requested, Inr thumbnails))"
  by pat_completeness auto
termination
  by (relation "measure (\<lambda>(e, inputPath, outputDir, interval, count, i, thumbnails, requested).
        nat (count + 1 - i))") auto

text \<open>
  \<^verbatim>\<open>generateThumbnails(inputPath, outputDir, count)\<close>: the extractions it spawned, and
  what its promise settles with.
\<close>

definition generateThumbnails ::
  "env \<Rightarrow> string \<Rightarrow> string \<Rightarrow> int \<Rightarrow> (jsnum \<times> string) list \<times> (err + string list)" where
  "generateThumbnails e inputPath outputDir count =
    (case probe e inputPath of
       Inl x \<Rightarrow> ([], Inl x)
     | Inr info \<Rightarrow>
        (let interval = jsdiv (duration info) (count + 1)
         in thumbnailLoop e inputPath outputDir interval count 1 [] []))"

subsection \<open>Segmented output and master playlist\<close>

text \<open>The two lines appended to \<^verbatim>\<open>masterContent\<close> for a variant.\<close>

definition streamInf :: "VideoVariant \<Rightarrow> string" where
  "streamInf variant =
     ''#EXT-X-STREAM-INF:BANDWIDTH='' @ show_int (bitrate variant * 1000)
       @ '',RESOLUTION='' @ show_int (width variant) @ ''x'' @ show_int (height variant) @ [CHR 0x0A]
       @ name variant @ ''/index.m3u8'' @ [CHR 0x0A]"

text \<open>
  The \<^verbatim>\<open>for ... of\<close> loop of \<^verbatim>\<open>createHLSPlaylist\<close> over the remaining variants: create
  the variant's directory, run its encode, append its lines. A rejected \<^verbatim>\<open>mkdir\<close>, a
  \<^verbatim>\<open>close\<close> with a code other than 0 or a spawn \<^verbatim>\<open>error\<close> rejects the whole call.
\<close>

fun hlsLoop :: "env \<Rightarrow> string \<Rightarrow> string \<Rightarrow> VideoVariant list \<Rightarrow> string \<Rightarrow> err + string" where
  "hlsLoop e inputPath outputDir [] masterContent = Inr masterContent"
| "hlsLoop e inputPath outputDir (variant # rest) masterContent =
    (let variantDir = path_join outputDir (name variant)
     in case fs_mkdir e variantDir of
          Some msg \<Rightarrow> Inl (FsError msg)
        | None \<Rightarrow>
           (let playlistPath = path_join variantDir ''index.m3u8''
            in case ffmpeg_hls e inputPath variant playlistPath of
                 Exited code \<Rightarrow>
                   if code = Some 0
                   then hlsLoop e inputPath outputDir rest (masterContent @ streamInf variant)
                   else Inl (HLSFailed (name variant))
               | SpawnFailed msg \<Rightarrow> Inl (SpawnErr msg)))"

definition masterHeader :: string where
  "masterHeader = ''#EXTM3U'' @ [CHR 0x0A] @ ''#EXT-X-VERSION:6'' @ [CHR 0x0A]"

text \<open>
  \<^verbatim>\<open>createHLSPlaylist(inputPath, outputDir, variants)\<close>: the files it wrote itself (path
  and content; the segments are the encoder's) and what its promise settles with.
\<close>

definition createHLSPlaylist ::
  "env \<Rightarrow> string \<Rightarrow> string \<Rightarrow> VideoVariant list \<Rightarrow> (string \<times> string) list \<times> (err + string)" where
  "createHLSPlaylist e inputPath outputDir vs =
    (let masterPlaylistPath = path_join outputDir ''master.m3u8''
     in case hlsLoop e inputPath outputDir vs masterHeader of
          Inl x \<Rightarrow> ([], Inl x)
        | Inr masterContent \<Rightarrow>
           (case fs_writeFile e masterPlaylistPath masterContent of
              Some msg \<Rightarrow> ([], Inl (FsError msg))
            | None \<Rightarrow> ([(masterPlaylistPath, masterContent)], Inr masterPlaylistPath)))"

text \<open>The encode of a variant, as \<^verbatim>\<open>createHLSPlaylist\<close> runs it, ends with code 0.\<close>

definition variantEncoded :: "env \<Rightarrow> string \<Rightarrow> string \<Rightarrow> VideoVariant \<Rightarrow> bool" where
  "variantEncoded e inputPath outputDir v =
     (ffmpeg_hls e inputPath v (path_join (path_join outputDir (name v)) ''index.m3u8'')
        = Exited (Some 0))"

subsection \<open>Transcode\<close>

definition checkFFmpegAvailability :: "env \<Rightarrow> bool" where
  "checkFFmpegAvailability e = (ffmpeg_version e = Exited (Some 0))"

text \<open>
  \<^verbatim>\<open>transcode(inputPath, outputPath, options)\<close> as the pipeline calls it (no
  \<^verbatim>\<open>onProgress\<close>): what its promise settles with. The argument vector built from the
  options does not decide the outcome here and is not modelled.
\<close>

definition transcode :: "env \<Rightarrow> string \<Rightarrow> string \<Rightarrow> err + unit" where
  "transcode e inputPath outputPath =
    (if \<not> checkFFmpegAvailability e then Inl FFmpegNotFound
     else case ffmpeg_transcode e inputPath outputPath of
            Exited code \<Rightarrow> if code = Some 0 then Inr () else Inl (FFmpegExited code)
          | SpawnFailed msg \<Rightarrow> Inl (FFmpegSpawnError msg))"

subsection \<open>The pipeline\<close>

text \<open>
  The options \<^verbatim>\<open>processVideoWithAdaptiveStreaming\<close> reads (\<open>None\<close>: not given), and its
  result.
\<close>

record options =
  opt_generateThumbnails :: "bool option"
  opt_thumbnailCount :: "int option"
  opt_generatePreview :: "bool option"

record PipelineResult =
  r_hlsPlaylist :: string
  r_thumbnails :: "string list"
  r_preview :: "string option"
  r_variants :: "VideoVariant list"

text \<open>
  Step 3: skipped only for \<^verbatim>\<open>generateThumbnails === false\<close>; the count is
  \<^verbatim>\<open>options.thumbnailCount || 5\<close>. The result is the progress calls made and the outcome.
\<close>

definition thumbnailStep ::
  "env \<Rightarrow> string \<Rightarrow> string \<Rightarrow> options \<Rightarrow> (nat \<times> string) list \<times> (err + string list)" where
  "thumbnailStep e inputPath outputDir opts =
    (if opt_generateThumbnails opts \<noteq> Some False then
       (let thumbnailDir = path_join outputDir ''thumbnails''
        in case fs_mkdir e thumbnailDir of
             Some msg \<Rightarrow> ([(20, ''Generating thumbnails'')], Inl (FsError msg))
           | None \<Rightarrow>
              ([(20, ''Generating thumbnails'')],
               snd (generateThumbnails e inputPath thumbnailDir
                      (case opt_thumbnailCount opts of
                         None \<Rightarrow> 5 | Some n \<Rightarrow> if n = 0 then 5 else n))))
     else ([], Inr []))"

text \<open>Step 4: only for a truthy \<^verbatim>\<open>generatePreview\<close>.\<close>

definition previewStep ::
  "env \<Rightarrow> string \<Rightarrow> string \<Rightarrow> options \<Rightarrow> (nat \<times> string) list \<times> (err + string option)" where
  "previewStep e inputPath outputDir opts =
    (if opt_generatePreview opts = Some True then
       (let previewPath = path_join outputDir ''preview.mp4''
        in case transcode e inputPath previewPath of
             Inl x \<Rightarrow> ([(30, ''Creating preview clip'')], Inl x)
           | Inr u \<Rightarrow> ([(30, ''Creating preview clip'')], Inr (Some previewPath)))
     else ([], Inr None))"

text \<open>
  \<^verbatim>\<open>processVideoWithAdaptiveStreaming(inputPath, outputDir, options)\<close>: the calls of
  \<^verbatim>\<open>onProgress\<close> in order, the files written, and what the promise settles with. The
  \<^verbatim>\<open>catch\<close> rethrows, so the first failing step settles the promise.
\<close>

definition processVideoWithAdaptiveStreaming ::
  "env \<Rightarrow> string \<Rightarrow> string \<Rightarrow> options
     \<Rightarrow> (nat \<times> string) list \<times> (string \<times> string) list \<times> (err + PipelineResult)" where
  "processVideoWithAdaptiveStreaming e inputPath outputDir opts =
    (case fs_mkdir e outputDir of
       Some msg \<Rightarrow> ([], [], Inl (FsError msg))
     | None \<Rightarrow>
       (case probe e inputPath of
          Inl x \<Rightarrow> ([(5, ''Analyzing video'')], [], Inl x)
        | Inr videoInfo \<Rightarrow>
          (let p2 = [(5, ''Analyzing video''), (10, ''Planning quality variants'')];
               vs = generateOptimalVariants (probe_width videoInfo) (probe_height videoInfo)
                      (duration videoInfo)
           in case thumbnailStep e inputPath outputDir opts of
                (p3, Inl x) \<Rightarrow> (p2 @ p3, [], Inl x)
              | (p3, Inr thumbs) \<Rightarrow>
                (case previewStep e inputPath outputDir opts of
                   (p4, Inl x) \<Rightarrow> (p2 @ p3 @ p4, [], Inl x)
                 | (p4, Inr prev) \<Rightarrow>
                   (let p5 = p2 @ p3 @ p4 @ [(40, ''Creating adaptive streaming variants'')]
                    in case createHLSPlaylist e inputPath outputDir vs of
                         (files, Inl x) \<Rightarrow> (p5, files, Inl x)
                       | (files, Inr hls) \<Rightarrow>
                           (p5 @ [(100, ''Processing complete'')], files,
                            Inr \<lparr>r_hlsPlaylist = hls, r_thumbnails = thumbs,
                                 r_preview = prev, r_variants = vs\<rparr>))))))"

subsection \<open>The job registry\<close>

text \<open>
  An entry of \<^verbatim>\<open>VideoProcessingQueue.queue\<close>. The status is the string the code stores.
  \<^verbatim>\<open>progress\<close>, \<^verbatim>\<open>result\<close>, \<^verbatim>\<open>error\<close> and \<^verbatim>\<open>startTime\<close> are \<open>None\<close> when the
  object has no such property.
\<close>

record job =
  status :: string
  progress :: "nat option"
  result :: "PipelineResult option"
  error :: "err option"
  startTime :: "nat option"

type_synonym registry = "string \<rightharpoonup> job"

text \<open>
  \<^verbatim>\<open>{ ...this.queue.get(jobId)!, status: s }\<close>: the stored object with its status replaced;
  the spread of \<^verbatim>\<open>undefined\<close> (no such entry) contributes no property.
\<close>

definition withStatus :: "job option \<Rightarrow> string \<Rightarrow> job" where
  "withStatus old s =
    (case old of
       Some j \<Rightarrow> j\<lparr>status := s\<rparr>
     | None \<Rightarrow> \<lparr>status = s, progress = None, result = None, error = None, startTime = None\<rparr>)"

text \<open>The four \<^verbatim>\<open>this.queue.set\<close> of \<^verbatim>\<open>processJob\<close>.\<close>

datatype job_write =
    SetProcessing
  | OnProgress nat
  | SetCompleted PipelineResult
  | SetError err

fun apply_write :: "registry \<Rightarrow> string \<Rightarrow> job_write \<Rightarrow> registry" where
  "apply_write q jobId SetProcessing = q(jobId \<mapsto> withStatus (q jobId) ''processing'')"
| "apply_write q jobId (OnProgress p) =
     q(jobId \<mapsto> (withStatus (q jobId) ''processing'')\<lparr>progress := Some p\<rparr>)"
| "apply_write q jobId (SetCompleted r) =
     q(jobId \<mapsto> (withStatus (q jobId) ''completed'')\<lparr>progress := Some 100, result := Some r\<rparr>)"
| "apply_write q jobId (SetError x) =
     q(jobId \<mapsto> (withStatus (q jobId) ''error'')\<lparr>error := Some x\<rparr>)"

text \<open>
  The writes of one \<^verbatim>\<open>processJob(jobId, inputPath, outputDir, options)\<close>, in order: the
  status \<^verbatim>\<open>processing\<close>, one write per progress call of the pipeline, and the
  completion or, from the \<^verbatim>\<open>catch\<close>, the error.
\<close>

definition processJob_writes :: "env \<Rightarrow> string \<Rightarrow> string \<Rightarrow> options \<Rightarrow> job_write list" where
  "processJob_writes e inputPath outputDir opts =
    (case processVideoWithAdaptiveStreaming e inputPath outputDir opts of
       (calls, files, r) \<Rightarrow>
         SetProcessing # map (\<lambda>(p, stage). OnProgress p) calls
           @ [case r of Inr res \<Rightarrow> SetCompleted res | Inl x \<Rightarrow> SetError x])"

text \<open>The registry after each of a list of writes to one job.\<close>

fun run_writes :: "registry \<Rightarrow> string \<Rightarrow> job_write list \<Rightarrow> registry list" where
  "run_writes q jobId [] = []"
| "run_writes q jobId (w # ws) = apply_write q jobId w # run_writes (apply_write q jobId w) jobId ws"

definition processJob :: "registry \<Rightarrow> string \<Rightarrow> env \<Rightarrow> string \<Rightarrow> string \<Rightarrow> options \<Rightarrow> registry list" where
  "processJob q jobId e inputPath outputDir opts =
     run_writes q jobId (processJob_writes e inputPath outputDir opts)"

text \<open>The first statement of \<^verbatim>\<open>addJob\<close>; \<open>now\<close> is \<^verbatim>\<open>Date.now()\<close>.\<close>

definition addJob_set :: "registry \<Rightarrow> string \<Rightarrow> nat \<Rightarrow> registry" where
  "addJob_set q jobId now =
     q(jobId \<mapsto> \<lparr>status = ''queued'', progress = Some 0, result = None, error = None,
                    startTime = Some now\<rparr>)"

text \<open>
  \<^verbatim>\<open>addJob(jobId, inputPath, outputDir, options)\<close> up to its return: how its promise
  settles and the registry then. The body has no \<^verbatim>\<open>throw\<close> and no \<^verbatim>\<open>await\<close>, and the call
  of the \<^verbatim>\<open>async\<close> method \<^verbatim>\<open>processJob\<close> runs that method up to its first suspension
  (the \<^verbatim>\<open>await fs.mkdir\<close> of the pipeline), that is through its first write. The
  \<^verbatim>\<open>catch\<close> handler attached to the call never runs, since \<^verbatim>\<open>processJob\<close> catches
  every error itself.
\<close>

definition addJob ::
  "registry \<Rightarrow> string \<Rightarrow> string \<Rightarrow> string \<Rightarrow> options \<Rightarrow> nat \<Rightarrow> (err + unit) \<times> registry" where
  "addJob q jobId inputPath outputDir opts now =
     (Inr (), apply_write (addJob_set q jobId now) jobId SetProcessing)"

text \<open>
  The registry states a job goes through when nothing else writes to its entry: the
  entry stored by \<^verbatim>\<open>addJob\<close>, then the writes of its \<^verbatim>\<open>processJob\<close>.
\<close>

definition job_history ::
  "registry \<Rightarrow> string \<Rightarrow> nat \<Rightarrow> env \<Rightarrow> string \<Rightarrow> string \<Rightarrow> options \<Rightarrow> registry list" where
  "job_history q jobId now e inputPath outputDir opts =
     addJob_set q jobId now # processJob (addJob_set q jobId now) jobId e inputPath outputDir opts"

definition getJobStatus :: "registry \<Rightarrow> string \<Rightarrow> job option" where
  "getJobStatus q jobId = q jobId"

text \<open>The entry of the job at the end of its history, and the progress a status query
  reads in a registry.\<close>

definition job_final ::
  "registry \<Rightarrow> string \<Rightarrow> nat \<Rightarrow> env \<Rightarrow> string \<Rightarrow> string \<Rightarrow> options \<Rightarrow> job option" where
  "job_final q jobId now e inputPath outputDir opts =
     getJobStatus (last (job_history q jobId now e inputPath outputDir opts)) jobId"

definition progressOf :: "registry \<Rightarrow> string \<Rightarrow> nat option" where
  "progressOf q jobId = (case getJobStatus q jobId of None \<Rightarrow> None | Some j \<Rightarrow> progress j)"

definition cancelJob :: "registry \<Rightarrow> string \<Rightarrow> bool \<times> registry" where
  "cancelJob q jobId =
    (case q jobId of
       Some j \<Rightarrow> if status j = ''queued'' then (True, q(jobId := None)) else (False, q)
     | None \<Rightarrow> (False, q))"

text \<open>
  The registries the class can hold: it starts empty, and the only code that changes it
  is the \<^verbatim>\<open>set\<close> of \<^verbatim>\<open>addJob\<close>, the writes of \<^verbatim>\<open>processJob\<close> and the \<^verbatim>\<open>delete\<close> of
  \<^verbatim>\<open>cancelJob\<close>, in any interleaving.
\<close>

inductive reachable :: "registry \<Rightarrow> bool" where
  r_init: "reachable Map.empty"
| r_add: "reachable q \<Longrightarrow> reachable (addJob_set q jobId now)"
| r_write: "reachable q \<Longrightarrow> reachable (apply_write q jobId w)"
| r_cancel: "reachable q \<Longrightarrow> reachable (snd (cancelJob q jobId))"


text \<open>
  Several jobs on one id. An operation on the entry of an id is the first statement of an
  \<^verbatim>\<open>addJob\<close> for that id or a write of a \<^verbatim>\<open>processJob\<close> for it; a job contributes its
  operations in order, and when \<^verbatim>\<open>addJob\<close> is called again with the id of a running job
  the operations of the two jobs interleave on the same entry.
\<close>

datatype queue_op = OpAdd nat | OpWrite job_write

fun apply_op :: "registry \<Rightarrow> string \<Rightarrow> queue_op \<Rightarrow> registry" where
  "apply_op q jobId (OpAdd now) = addJob_set q jobId now"
| "apply_op q jobId (OpWrite w) = apply_write q jobId w"

fun run_ops :: "registry \<Rightarrow> string \<Rightarrow> queue_op list \<Rightarrow> registry list" where
  "run_ops q jobId [] = []"
| "run_ops q jobId (x # xs) = apply_op q jobId x # run_ops (apply_op q jobId x) jobId xs"

definition job_ops :: "nat \<Rightarrow> env \<Rightarrow> string \<Rightarrow> string \<Rightarrow> options \<Rightarrow> queue_op list" where
  "job_ops now e inputPath outputDir opts =
     OpAdd now # map OpWrite (processJob_writes e inputPath outputDir opts)"

subsection \<open>Sample inputs\<close>

text \<open>
  A report for a 1920x1080 source of 100 seconds with an audio stream, and an outside
  world in which every call succeeds; the other sample worlds change one answer of it.
\<close>

definition sample_report :: ff_data where
  "sample_report =
    \<lparr>streams = Some
       [\<lparr>codec_type = Some ''video'', codec_name = Some ''h264'', st_width = Some 1920,
         st_height = Some 1080, r_frame_rate = Some ''30/1''\<rparr>,
        \<lparr>codec_type = Some ''audio'', codec_name = Some ''aac'', st_width = None,
         st_height = None, r_frame_rate = Some ''0/0''\<rparr>],
     format = Some \<lparr>fmt_duration = Some ''100.000000'', bit_rate = Some ''5000000'',
                     format_name = Some ''mov,mp4''\<rparr>\<rparr>"

definition world_ok :: env where
  "world_ok =
    \<lparr>ffprobe = (\<lambda>p. (Exited (Some 0), ''{...}'')),
     JSON_parse = (\<lambda>s. Some sample_report),
     parseFloat = (\<lambda>s. if s = ''100.000000'' then Num 100 else NaN),
     parseInt = (\<lambda>s. if s = ''5000000'' then Num 5000000 else NaN),
     js_eval = (\<lambda>s. if s = ''30/1'' then Some (Num 30) else None),
     fs_mkdir = (\<lambda>p. None),
     fs_writeFile = (\<lambda>p c. None),
     ffmpeg_version = Exited (Some 0),
     ffmpeg_thumbnail = (\<lambda>inp t out. Exited (Some 0)),
     ffmpeg_hls = (\<lambda>inp v playlist. Exited (Some 0)),
     ffmpeg_transcode = (\<lambda>inp out. Exited (Some 0))\<rparr>"

text \<open>The encode of the 720p variant exits with code 1; the other three succeed.\<close>

definition world_720p_fails :: env where
  "world_720p_fails =
     world_ok\<lparr>ffmpeg_hls := (\<lambda>inp v playlist.
                 if name v = ''720p'' then Exited (Some 1) else Exited (Some 0))\<rparr>"

text \<open>Every thumbnail extraction exits with code 1.\<close>

definition world_thumbnail_fails :: env where
  "world_thumbnail_fails = world_ok\<lparr>ffmpeg_thumbnail := (\<lambda>inp t out. Exited (Some 1))\<rparr>"

text \<open>A video-only report whose container gives neither duration nor bitrate.\<close>

definition bare_report :: ff_data where
  "bare_report =
    \<lparr>streams = Some
       [\<lparr>codec_type = Some ''video'', codec_name = Some ''h264'', st_width = Some 640,
         st_height = Some 360, r_frame_rate = None\<rparr>],
     format = Some \<lparr>fmt_duration = None, bit_rate = None, format_name = Some ''matroska''\<rparr>\<rparr>"

definition world_bare :: env where
  "world_bare = world_ok\<lparr>JSON_parse := (\<lambda>s. Some bare_report)\<rparr>"



text \<open>Worlds in which ffprobe exits with code 1, prints text that is no JSON, or reports
  an audio stream only.\<close>

definition world_probe_exit1 :: env where
  "world_probe_exit1 = world_ok\<lparr>ffprobe := (\<lambda>p. (Exited (Some 1), []))\<rparr>"

definition world_unparsable :: env where
  "world_unparsable = world_ok\<lparr>JSON_parse := (\<lambda>s. None)\<rparr>"

definition audio_only_report :: ff_data where
  "audio_only_report =
    \<lparr>streams = Some
       [\<lparr>codec_type = Some ''audio'', codec_name = Some ''mp3'', st_width = None,
         st_height = None, r_frame_rate = Some ''0/0''\<rparr>],
     format = Some \<lparr>fmt_duration = Some ''100.000000'', bit_rate = Some ''128000'',
                     format_name = Some ''mp3''\<rparr>\<rparr>"

definition world_audio_only :: env where
  "world_audio_only = world_ok\<lparr>JSON_parse := (\<lambda>s. Some audio_only_report)\<rparr>"

text \<open>A registry holding one job in the middle of its processing, and one still queued.\<close>

definition q_processing :: registry where
  "q_processing =
     Map.empty(''a'' \<mapsto> \<lparr>status = ''processing'', progress = Some 40, result = None,
                           error = None, startTime = Some 7\<rparr>)"

definition q_queued :: registry where
  "q_queued = addJob_set Map.empty ''a'' 7"

definition no_options :: options where
  "no_options = \<lparr>opt_generateThumbnails = None, opt_thumbnailCount = None,
                   opt_generatePreview = None\<rparr>"

text \<open>
  Two jobs added with the same id in the sample world, the second (at time 9) while the
  first (at time 7) waits for its segmented encodes: the first six operations of the
  first job, the two of the second \<^verbatim>\<open>addJob\<close>, the last two of the first job, then the
  rest of the second.
\<close>

definition reused_id_ops :: "queue_op list" where
  "reused_id_ops =
     take 6 (job_ops 7 world_ok ''in.mp4'' ''out'' no_options)
       @ take 2 (job_ops 9 world_ok ''in.mp4'' ''out'' no_options)
       @ drop 6 (job_ops 7 world_ok ''in.mp4'' ''out'' no_options)
       @ drop 2 (job_ops 9 world_ok ''in.mp4'' ''out'' no_options)"

section \<open>Properties\<close>

subsection \<open>Variant planner\<close>

text \<open>The ladder entries the \<^verbatim>\<open>forEach\<close> selects, by source height.\<close>

lemma ladder_selected:
  "filter (\<lambda>config. h \<ge> maxSourceHeight config) qualityConfigs =
     (if h < 360 then [] else if h < 480 then take 1 qualityConfigs
      else if h < 720 then take 2 qualityConfigs
      else if h < 1080 then take 3 qualityConfigs else qualityConfigs)"
  by (simp add: qualityConfigs_def)

text \<open>
  C4, as stated, fails: for a 480x360 source the planner does not return the fallback
  variant. The source height 360 meets the 360p rung, so the single variant returned is
  the ladder rendition 360p, whose width 640 exceeds the source width 480.
\<close>

theorem planVariants_480_360_counterexample:
  "generateOptimalVariants 480 360 (Num 10) \<noteq> [fallbackVariant 480 360]
   \<and> map name (generateOptimalVariants 480 360 (Num 10)) = [''360p'']
   \<and> map width (generateOptimalVariants 480 360 (Num 10)) = [640]"
  by (simp add: generateOptimalVariants_def qualityConfigs_def ladderVariant_def fallbackVariant_def)

text \<open>
  C4, amended: \<^verbatim>\<open>planVariants(480,360,10)\<close> returns exactly one variant, the ladder rendition
  360p (640x360). The planner returns the single fallback variant exactly when the source
  height is below 360, and that variant is capped at the source's own dimensions and
  does not exceed 854x480.
\<close>

theorem planVariants_fallback:
  "generateOptimalVariants 480 360 (Num 10) = [ladderVariant (hd qualityConfigs)]
   \<and> name (ladderVariant (hd qualityConfigs)) = ''360p''
   \<and> width (ladderVariant (hd qualityConfigs)) = 640
   \<and> height (ladderVariant (hd qualityConfigs)) = 360
   \<and> (generateOptimalVariants w h d = [fallbackVariant w h] \<longleftrightarrow> h < 360)
   \<and> width (fallbackVariant w h) \<le> w \<and> width (fallbackVariant w h) \<le> 854
   \<and> height (fallbackVariant w h) \<le> h \<and> height (fallbackVariant w h) \<le> 480"
  by (simp add: generateOptimalVariants_def ladder_selected)
     (simp add: qualityConfigs_def ladderVariant_def fallbackVariant_def)

theorem planVariants_fallback_witness:
  "generateOptimalVariants 480 359 (Num 10) = [fallbackVariant 480 359]
   \<and> fallbackVariant 480 359 = \<lparr>name = ''auto'', width = 480, height = 359,
     bitrate = 1200, codec = ''libx264'', profile = ''high'', level = ''4.0'',
     bufsize = 2400, maxrate = 1800, fps = 30\<rparr>"
  using planVariants_fallback [of 480 359 "Num 10"] by (simp add: fallbackVariant_def)

text \<open>
  C5: for every source, a ladder rendition is in the plan iff the source height is at
  least the rendition's reference height; no planned variant is higher than the source;
  the plan is never empty; and for a 1920x1080 source of 600 seconds the plan is the
  whole ladder 360p, 480p, 720p, 1080p in that ascending order.
\<close>

theorem planVariants_ladder:
  "(\<forall>config \<in> set qualityConfigs.
      ladderVariant config \<in> set (generateOptimalVariants w h d) \<longleftrightarrow> h \<ge> maxSourceHeight config)
   \<and> (\<forall>v \<in> set (generateOptimalVariants w h d). height v \<le> h)
   \<and> length (generateOptimalVariants w h d) \<ge> 1
   \<and> generateOptimalVariants 1920 1080 (Num 600) = map ladderVariant qualityConfigs
   \<and> map name (generateOptimalVariants 1920 1080 (Num 600)) = [''360p'', ''480p'', ''720p'', ''1080p'']
   \<and> map height (generateOptimalVariants 1920 1080 (Num 600)) = [360, 480, 720, 1080]"
  by (simp add: generateOptimalVariants_def ladder_selected)
     (simp add: qualityConfigs_def ladderVariant_def fallbackVariant_def)

theorem planVariants_ladder_witness:
  "(ladderVariant (qualityConfigs ! 2) \<in> set (generateOptimalVariants 1280 720 (Num 60)))
   \<and> (ladderVariant (qualityConfigs ! 3) \<notin> set (generateOptimalVariants 1280 720 (Num 60)))
   \<and> map name (generateOptimalVariants 1280 720 (Num 60)) = [''360p'', ''480p'', ''720p'']"
  using planVariants_ladder [of 1280 720 "Num 60"]
  by (simp add: generateOptimalVariants_def qualityConfigs_def ladderVariant_def)

subsection \<open>Thumbnails\<close>

declare thumbnailLoop.simps [simp del]
declare show_nat.simps [simp del]


text \<open>One step of the loop: no iteration left, a successful extraction, a failed one.\<close>

lemma thumbnailLoop_done:
  "\<not> i \<le> count \<Longrightarrow> thumbnailLoop e inp out iv count i ths req = (req, Inr ths)"
  by (subst thumbnailLoop.simps) simp

lemma thumbnailLoop_ok:
  "i \<le> count \<Longrightarrow> ffmpeg_thumbnail e inp (jsmul iv i) (thumbnailPath out i) = Exited (Some 0) \<Longrightarrow>
   thumbnailLoop e inp out iv count i ths req =
     thumbnailLoop e inp out iv count (i + 1) (ths @ [thumbnailPath out i])
       (req @ [(jsmul iv i, thumbnailPath out i)])"
  by (subst thumbnailLoop.simps) (simp add: Let_def)

lemma thumbnailLoop_fail:
  "i \<le> count \<Longrightarrow> ffmpeg_thumbnail e inp (jsmul iv i) (thumbnailPath out i) \<noteq> Exited (Some 0) \<Longrightarrow>
   fst (thumbnailLoop e inp out iv count i ths req) = req @ [(jsmul iv i, thumbnailPath out i)]
   \<and> isl (snd (thumbnailLoop e inp out iv count i ths req))"
  by (subst thumbnailLoop.simps, subst thumbnailLoop.simps)
     (simp add: Let_def split: proc_exit.splits)

text \<open>
  The extractions spawned from iteration \<open>i\<close> on are those of the iterations \<open>i..k\<close> for
  some \<open>k\<close> up to \<open>count\<close>, and the loop stops before \<open>count\<close> only by a rejection.
\<close>

lemma thumbnailLoop_requests:
  "i \<le> count \<Longrightarrow>
   \<exists>k. i \<le> k \<and> k \<le> count
     \<and> fst (thumbnailLoop e inp out iv count i ths req)
          = req @ map (\<lambda>j. (jsmul iv j, thumbnailPath out j)) [i..k]
     \<and> (k < count \<longrightarrow> isl (snd (thumbnailLoop e inp out iv count i ths req)))"
proof (induction "nat (count - i)" arbitrary: i ths req)
  case 0
  then have eq: "i = count" by simp
  show ?case
  proof (cases "ffmpeg_thumbnail e inp (jsmul iv i) (thumbnailPath out i) = Exited (Some 0)")
    case True
    then have "thumbnailLoop e inp out iv count i ths req
        = (req @ [(jsmul iv i, thumbnailPath out i)], Inr (ths @ [thumbnailPath out i]))"
      using eq by (simp add: thumbnailLoop_ok thumbnailLoop_done)
    then show ?thesis using eq by (intro exI [of _ i]) simp
  next
    case False
    from thumbnailLoop_fail [OF "0.prems" this, of ths req] eq
    show ?thesis by (intro exI [of _ i]) simp
  qed
next
  case (Suc n)
  then have lt: "i + 1 \<le> count" and n: "n = nat (count - (i + 1))" by auto
  show ?case
  proof (cases "ffmpeg_thumbnail e inp (jsmul iv i) (thumbnailPath out i) = Exited (Some 0)")
    case True
    from Suc.hyps(1) [OF n lt, of "ths @ [thumbnailPath out i]" "req @ [(jsmul iv i, thumbnailPath out i)]"]
    obtain k where k: "i + 1 \<le> k" "k \<le> count"
      "fst (thumbnailLoop e inp out iv count (i + 1) (ths @ [thumbnailPath out i])
              (req @ [(jsmul iv i, thumbnailPath out i)]))
         = (req @ [(jsmul iv i, thumbnailPath out i)]) @ map (\<lambda>j. (jsmul iv j, thumbnailPath out j)) [i + 1..k]"
      "k < count \<longrightarrow> isl (snd (thumbnailLoop e inp out iv count (i + 1) (ths @ [thumbnailPath out i])
              (req @ [(jsmul iv i, thumbnailPath out i)])))"
      by blast
    have "[i..k] = i # [i + 1..k]" using k(1) by (simp add: upto_rec1)
    with k True Suc.prems show ?thesis
      by (intro exI [of _ k]) (simp add: thumbnailLoop_ok)
  next
    case False
    from thumbnailLoop_fail [OF Suc.prems this, of ths req] Suc.prems
    show ?thesis by (intro exI [of _ i]) simp
  qed
qed

text \<open>Invariant of the loop: the array holds the output path of every extraction spawned
  so far, and each of them ended with code 0.\<close>

lemma thumbnailLoop_success:
  "thumbnailLoop e inp out iv count i ths req = (req', Inr res) \<Longrightarrow>
   ths = map snd req \<Longrightarrow>
   (\<forall>(t, p) \<in> set req. ffmpeg_thumbnail e inp t p = Exited (Some 0)) \<Longrightarrow>
   res = map snd req' \<and> (\<forall>(t, p) \<in> set req'. ffmpeg_thumbnail e inp t p = Exited (Some 0))"
proof (induction "nat (count + 1 - i)" arbitrary: i ths req)
  case 0
  then have "\<not> i \<le> count" by simp
  with "0.prems" show ?case by (auto simp: thumbnailLoop_done)
next
  case (Suc n)
  then have le: "i \<le> count" and n: "n = nat (count + 1 - (i + 1))" by auto
  have ok: "ffmpeg_thumbnail e inp (jsmul iv i) (thumbnailPath out i) = Exited (Some 0)"
  proof (rule ccontr)
    assume "\<not> ?thesis"
    from thumbnailLoop_fail [OF le this, of ths req] Suc.prems(1) show False by simp
  qed
  from Suc.prems(1) have rec:
    "thumbnailLoop e inp out iv count (i + 1) (ths @ [thumbnailPath out i])
       (req @ [(jsmul iv i, thumbnailPath out i)]) = (req', Inr res)"
    by (simp add: thumbnailLoop_ok [OF le ok])
  show ?case
    by (rule Suc.hyps(1) [OF n rec]) (use Suc.prems ok in auto)
qed



text \<open>When every extraction ends with code 0 the loop runs through.\<close>

lemma thumbnailLoop_all_ok:
  assumes "\<forall>t p. ffmpeg_thumbnail e inp t p = Exited (Some 0)"
  shows "thumbnailLoop e inp out iv count i ths req =
     (req @ map (\<lambda>j. (jsmul iv j, thumbnailPath out j)) [i..count],
      Inr (ths @ map (thumbnailPath out) [i..count]))"
proof (induction "nat (count + 1 - i)" arbitrary: i ths req)
  case 0
  then have "\<not> i \<le> count" by simp
  then show ?case by (simp add: thumbnailLoop_done)
next
  case (Suc n)
  then have le: "i \<le> count" and n: "n = nat (count + 1 - (i + 1))" by auto
  have "[i..count] = i # [i + 1..count]" using le by (simp add: upto_rec1)
  with Suc.hyps(1) [OF n] assms le show ?case by (simp add: thumbnailLoop_ok)
qed

lemma generateThumbnails_all_ok:
  assumes "probe e inp = Inr info" "\<forall>t p. ffmpeg_thumbnail e inp t p = Exited (Some 0)"
  shows "generateThumbnails e inp out count =
     (map (\<lambda>j. (jsmul (jsdiv (duration info) (count + 1)) j, thumbnailPath out j)) [1..count],
      Inr (map (thumbnailPath out) [1..count]))"
  using thumbnailLoop_all_ok [OF assms(2), where i = 1 and ths = "[]" and req = "[]"] assms(1)
  by (simp add: generateThumbnails_def)

lemma five_paths:
  "map (thumbnailPath dir) [1..5] =
     [dir @ ''/thumbnail_1.jpg'', dir @ ''/thumbnail_2.jpg'', dir @ ''/thumbnail_3.jpg'',
      dir @ ''/thumbnail_4.jpg'', dir @ ''/thumbnail_5.jpg'']"
  by (simp add: thumbnailPath_def path_join_def show_int_def show_nat.simps upto_rec1)

text \<open>The probes of the sample worlds.\<close>

lemma probe_world_ok: "probe world_ok ''in.mp4'' =
  Inr \<lparr>duration = Num 100, probe_width = 1920, probe_height = 1080, probe_bitrate = Num 5000000,
       probe_fps = Num 30, probe_format = ''mov,mp4'', video_codec = ''h264'', audio_codec = ''aac''\<rparr>"
  by code_simp

lemma probe_world_thumbnail_fails: "probe world_thumbnail_fails ''in.mp4'' =
  Inr \<lparr>duration = Num 100, probe_width = 1920, probe_height = 1080, probe_bitrate = Num 5000000,
       probe_fps = Num 30, probe_format = ''mov,mp4'', video_codec = ''h264'', audio_codec = ''aac''\<rparr>"
  by code_simp


text \<open>What a successful thumbnail step returns.\<close>

lemma generateThumbnails_success:
  assumes "snd (generateThumbnails e inp out count) = Inr paths"
  shows "paths = map snd (fst (generateThumbnails e inp out count))
    \<and> (\<forall>(t, p) \<in> set (fst (generateThumbnails e inp out count)).
          ffmpeg_thumbnail e inp t p = Exited (Some 0))
    \<and> paths = map (thumbnailPath out) [1..count]"
proof (cases "probe e inp")
  case (Inl x)
  with assms show ?thesis by (simp add: generateThumbnails_def)
next
  case (Inr info)
  let ?iv = "jsdiv (duration info) (count + 1)"
  from Inr have g: "generateThumbnails e inp out count = thumbnailLoop e inp out ?iv count 1 [] []"
    by (simp add: generateThumbnails_def)
  obtain req' where loop: "thumbnailLoop e inp out ?iv count 1 [] [] = (req', Inr paths)"
    using assms g by (cases "thumbnailLoop e inp out ?iv count 1 [] []") simp
  from thumbnailLoop_success [OF loop] have a: "paths = map snd req'"
    and b: "\<forall>(t, p) \<in> set req'. ffmpeg_thumbnail e inp t p = Exited (Some 0)" by simp_all
  have c: "paths = map (thumbnailPath out) [1..count]"
  proof (cases "1 \<le> count")
    case True
    from thumbnailLoop_requests [OF True, of e inp out ?iv "[]" "[]"] loop
    obtain k where "k \<le> count" "req' = map (\<lambda>j. (jsmul ?iv j, thumbnailPath out j)) [1..k]"
      "k < count \<longrightarrow> False" by auto
    then have "req' = map (\<lambda>j. (jsmul ?iv j, thumbnailPath out j)) [1..count]" by simp
    with a show ?thesis by (simp add: comp_def)
  next
    case False
    with loop a show ?thesis by (simp add: thumbnailLoop_done)
  qed
  from a b c g loop show ?thesis by simp
qed

text \<open>
  C9: if any extraction the step spawned did not end with code 0, the step settles with
  an error, so no partial list is returned as success; and when the step succeeds the
  returned list is the output path of each requested timestamp, one per request,
  \<^verbatim>\<open>count\<close> in all.
\<close>

theorem thumbnails_all_or_nothing:
  "((\<exists>(t, p) \<in> set (fst (generateThumbnails e inp out count)).
        ffmpeg_thumbnail e inp t p \<noteq> Exited (Some 0))
      \<longrightarrow> isl (snd (generateThumbnails e inp out count)))
   \<and> (\<forall>paths. snd (generateThumbnails e inp out count) = Inr paths \<longrightarrow>
         paths = map snd (fst (generateThumbnails e inp out count))
         \<and> length paths = length (fst (generateThumbnails e inp out count))
         \<and> length paths = nat count)"
proof (intro conjI impI allI)
  assume bad: "\<exists>(t, p) \<in> set (fst (generateThumbnails e inp out count)).
        ffmpeg_thumbnail e inp t p \<noteq> Exited (Some 0)"
  show "isl (snd (generateThumbnails e inp out count))"
  proof (cases "snd (generateThumbnails e inp out count)")
    case (Inl x)
    then show ?thesis by simp
  next
    case (Inr paths)
    from generateThumbnails_success [OF this] bad show ?thesis by blast
  qed
next
  fix paths
  assume ok: "snd (generateThumbnails e inp out count) = Inr paths"
  from generateThumbnails_success [OF ok]
  show "paths = map snd (fst (generateThumbnails e inp out count))" by blast
  then show "length paths = length (fst (generateThumbnails e inp out count))" by simp
  from generateThumbnails_success [OF ok] have "paths = map (thumbnailPath out) [1..count]" by blast
  then show "length paths = nat count" by simp
qed

theorem thumbnails_all_or_nothing_witness:
  "(\<exists>(t, p) \<in> set (fst (generateThumbnails world_thumbnail_fails ''in.mp4'' ''out'' 5)).
        ffmpeg_thumbnail world_thumbnail_fails ''in.mp4'' t p \<noteq> Exited (Some 0))
   \<and> isl (snd (generateThumbnails world_thumbnail_fails ''in.mp4'' ''out'' 5))
   \<and> snd (generateThumbnails world_ok ''in.mp4'' ''out'' 5)
        = Inr [''out/thumbnail_1.jpg'', ''out/thumbnail_2.jpg'', ''out/thumbnail_3.jpg'',
               ''out/thumbnail_4.jpg'', ''out/thumbnail_5.jpg'']
   \<and> map snd (fst (generateThumbnails world_ok ''in.mp4'' ''out'' 5))
        = [''out/thumbnail_1.jpg'', ''out/thumbnail_2.jpg'', ''out/thumbnail_3.jpg'',
               ''out/thumbnail_4.jpg'', ''out/thumbnail_5.jpg'']"
proof -
  have f: "ffmpeg_thumbnail world_thumbnail_fails inp t p = Exited (Some 1)" for inp t p
    by (simp add: world_thumbnail_fails_def world_ok_def)
  have "fst (generateThumbnails world_thumbnail_fails ''in.mp4'' ''out'' 5)
      = [(jsmul (jsdiv (Num 100) (5 + 1)) 1, thumbnailPath ''out'' 1)]"
    using thumbnailLoop_fail [of 1 5 world_thumbnail_fails "''in.mp4''" "jsdiv (Num 100) (5 + 1)" "''out''" "[]" "[]"]
    by (simp add: generateThumbnails_def probe_world_thumbnail_fails f)
  then have bad: "\<exists>(t, p) \<in> set (fst (generateThumbnails world_thumbnail_fails ''in.mp4'' ''out'' 5)).
        ffmpeg_thumbnail world_thumbnail_fails ''in.mp4'' t p \<noteq> Exited (Some 0)"
    by (simp add: f)
  have "\<forall>t p. ffmpeg_thumbnail world_ok ''in.mp4'' t p = Exited (Some 0)"
    by (simp add: world_ok_def)
  from generateThumbnails_all_ok [OF probe_world_ok this, of "''out''" 5]
  have ok: "snd (generateThumbnails world_ok ''in.mp4'' ''out'' 5)
        = Inr [''out/thumbnail_1.jpg'', ''out/thumbnail_2.jpg'', ''out/thumbnail_3.jpg'',
               ''out/thumbnail_4.jpg'', ''out/thumbnail_5.jpg'']"
    by (simp add: five_paths)
  from thumbnails_all_or_nothing [of world_thumbnail_fails "''in.mp4''" "''out''" 5] bad
  have "isl (snd (generateThumbnails world_thumbnail_fails ''in.mp4'' ''out'' 5))" by blast
  moreover from thumbnails_all_or_nothing [of world_ok "''in.mp4''" "''out''" 5] ok
  have "map snd (fst (generateThumbnails world_ok ''in.mp4'' ''out'' 5))
        = [''out/thumbnail_1.jpg'', ''out/thumbnail_2.jpg'', ''out/thumbnail_3.jpg'',
               ''out/thumbnail_4.jpg'', ''out/thumbnail_5.jpg'']" by simp
  ultimately show ?thesis using bad ok by blast
qed

subsection \<open>Timestamps in double arithmetic\<close>


















subsection \<open>Media inspector\<close>

lemma find_no_video:
  "(\<forall>s \<in> set ss. codec_type s \<noteq> Some ''video'') \<Longrightarrow> find (\<lambda>s. codec_type s = Some ''video'') ss = None"
  by (simp add: find_None_iff)

text \<open>
  C8: the probe fails when ffprobe exits with a code other than 0, when its output does
  not parse, and when the report has no video stream. When the report has a video stream
  and a format section (and the frame rate evaluates), the probe succeeds: a report
  without audio stream gives the empty audio codec, and a format section without duration
  or without bitrate gives 0 for it.
\<close>

theorem probe_failures_and_defaults:
  "(\<forall>code stdout. ffprobe e p = (Exited code, stdout) \<longrightarrow> code \<noteq> Some 0 \<longrightarrow>
       probe e p = Inl (FFprobeFailed code))
   \<and> (\<forall>stdout. ffprobe e p = (Exited (Some 0), stdout) \<longrightarrow> JSON_parse e stdout = None \<longrightarrow>
       probe e p = Inl FFprobeParseFailed)
   \<and> (\<forall>stdout data ss. ffprobe e p = (Exited (Some 0), stdout) \<longrightarrow>
       JSON_parse e stdout = Some data \<longrightarrow> streams data = Some ss \<longrightarrow>
       (\<forall>s \<in> set ss. codec_type s \<noteq> Some ''video'') \<longrightarrow>
       probe e p = Inl NoVideoStream)
   \<and> (\<forall>stdout data ss vs f rate. ffprobe e p = (Exited (Some 0), stdout) \<longrightarrow>
       JSON_parse e stdout = Some data \<longrightarrow> streams data = Some ss \<longrightarrow>
       find (\<lambda>s. codec_type s = Some ''video'') ss = Some vs \<longrightarrow>
       format data = Some f \<longrightarrow>
       (case truthy (r_frame_rate vs) of None \<Rightarrow> Some (Num 0) | Some s \<Rightarrow> js_eval e s) = Some rate \<longrightarrow>
       (\<exists>info. probe e p = Inr info
          \<and> ((\<forall>s \<in> set ss. codec_type s \<noteq> Some ''audio'') \<longrightarrow> audio_codec info = [])
          \<and> (fmt_duration f = None \<longrightarrow> duration info = Num 0)
          \<and> (bit_rate f = None \<longrightarrow> probe_bitrate info = Num 0)))"
proof (intro conjI allI impI)
  fix code stdout
  assume "ffprobe e p = (Exited code, stdout)" "code \<noteq> Some 0"
  then show "probe e p = Inl (FFprobeFailed code)" by (simp add: probe_def)
next
  fix stdout
  assume "ffprobe e p = (Exited (Some 0), stdout)" "JSON_parse e stdout = None"
  then show "probe e p = Inl FFprobeParseFailed" by (simp add: probe_def)
next
  fix stdout data ss
  assume "ffprobe e p = (Exited (Some 0), stdout)" "JSON_parse e stdout = Some data"
    "streams data = Some ss" "\<forall>s \<in> set ss. codec_type s \<noteq> Some ''video''"
  then show "probe e p = Inl NoVideoStream"
    by (simp add: probe_def find_no_video)
next
  fix stdout data ss vs f rate
  assume a: "ffprobe e p = (Exited (Some 0), stdout)" "JSON_parse e stdout = Some data"
    "streams data = Some ss" "find (\<lambda>s. codec_type s = Some ''video'') ss = Some vs"
    "format data = Some f"
    "(case truthy (r_frame_rate vs) of None \<Rightarrow> Some (Num 0) | Some s \<Rightarrow> js_eval e s) = Some rate"
  have noaudio: "(\<forall>s \<in> set ss. codec_type s \<noteq> Some ''audio'') \<Longrightarrow>
      find (\<lambda>s. codec_type s = Some ''audio'') ss = None"
    by (simp add: find_None_iff)
  from a show "\<exists>info. probe e p = Inr info
          \<and> ((\<forall>s \<in> set ss. codec_type s \<noteq> Some ''audio'') \<longrightarrow> audio_codec info = [])
          \<and> (fmt_duration f = None \<longrightarrow> duration info = Num 0)
          \<and> (bit_rate f = None \<longrightarrow> probe_bitrate info = Num 0)"
    by (auto simp: probe_def truthy_def dest: noaudio)
qed

theorem probe_failures_and_defaults_witness:
  "probe world_probe_exit1 ''in.mp4'' = Inl (FFprobeFailed (Some 1))
   \<and> probe world_unparsable ''in.mp4'' = Inl FFprobeParseFailed
   \<and> probe world_audio_only ''in.mp4'' = Inl NoVideoStream
   \<and> (\<exists>info. probe world_bare ''in.mp4'' = Inr info \<and> audio_codec info = []
         \<and> duration info = Num 0 \<and> probe_bitrate info = Num 0)"
proof (intro conjI)
  have 1: "ffprobe world_probe_exit1 ''in.mp4'' = (Exited (Some 1), [])"
    by (simp add: world_probe_exit1_def world_ok_def)
  from probe_failures_and_defaults [of world_probe_exit1 "''in.mp4''"] 1
  show "probe world_probe_exit1 ''in.mp4'' = Inl (FFprobeFailed (Some 1))" by simp
next
  have 1: "ffprobe world_unparsable ''in.mp4'' = (Exited (Some 0), ''{...}'')"
    and 2: "JSON_parse world_unparsable ''{...}'' = None"
    by (simp_all add: world_unparsable_def world_ok_def)
  from probe_failures_and_defaults [of world_unparsable "''in.mp4''"] 1 2
  show "probe world_unparsable ''in.mp4'' = Inl FFprobeParseFailed" by blast
next
  have 1: "ffprobe world_audio_only ''in.mp4'' = (Exited (Some 0), ''{...}'')"
    and 2: "JSON_parse world_audio_only ''{...}'' = Some audio_only_report"
    and 3: "streams audio_only_report = Some (the (streams audio_only_report))"
    and 4: "\<forall>s \<in> set (the (streams audio_only_report)). codec_type s \<noteq> Some ''video''"
    by (simp_all add: world_audio_only_def world_ok_def audio_only_report_def)
  from probe_failures_and_defaults [of world_audio_only "''in.mp4''"] 1 2 3 4
  show "probe world_audio_only ''in.mp4'' = Inl NoVideoStream" by blast
next
  let ?vs = "\<lparr>codec_type = Some ''video'', codec_name = Some ''h264'', st_width = Some 640,
         st_height = Some 360, r_frame_rate = None\<rparr>"
  let ?f = "\<lparr>fmt_duration = None, bit_rate = None, format_name = Some ''matroska''\<rparr>"
  have 1: "ffprobe world_bare ''in.mp4'' = (Exited (Some 0), ''{...}'')"
    and 2: "JSON_parse world_bare ''{...}'' = Some bare_report"
    and 3: "streams bare_report = Some [?vs]"
    and 4: "find (\<lambda>s. codec_type s = Some ''video'') [?vs] = Some ?vs"
    and 5: "format bare_report = Some ?f"
    and 6: "(case truthy (r_frame_rate ?vs) of None \<Rightarrow> Some (Num 0) | Some s \<Rightarrow> js_eval world_bare s) = Some (Num 0)"
    and 7: "\<forall>s \<in> set [?vs]. codec_type s \<noteq> Some ''audio''"
    and 8: "fmt_duration ?f = None" "bit_rate ?f = None"
    by (simp_all add: world_bare_def world_ok_def bare_report_def truthy_def)
  from probe_failures_and_defaults [of world_bare "''in.mp4''"] 1 2 3 4 5 6
  have "\<exists>info. probe world_bare ''in.mp4'' = Inr info
          \<and> ((\<forall>s \<in> set [?vs]. codec_type s \<noteq> Some ''audio'') \<longrightarrow> audio_codec info = [])
          \<and> (fmt_duration ?f = None \<longrightarrow> duration info = Num 0)
          \<and> (bit_rate ?f = None \<longrightarrow> probe_bitrate info = Num 0)"
    by blast
  with 7 8 show "\<exists>info. probe world_bare ''in.mp4'' = Inr info \<and> audio_codec info = []
         \<and> duration info = Num 0 \<and> probe_bitrate info = Num 0" by blast
qed

subsection \<open>Segmented output and the pipeline\<close>

text \<open>A variant whose encode fails makes the loop reject; a loop that does not reject has
  encoded every variant and appended the lines of each, in order.\<close>

lemma hlsLoop_failed:
  "\<exists>v \<in> set vs. \<not> variantEncoded e inp out v \<Longrightarrow> isl (hlsLoop e inp out vs c)"
  by (induction vs arbitrary: c)
     (auto simp: variantEncoded_def Let_def split: option.splits proc_exit.splits)

lemma hlsLoop_succeeded:
  "hlsLoop e inp out vs c = Inr c' \<Longrightarrow>
   c' = c @ concat (map streamInf vs) \<and> (\<forall>v \<in> set vs. variantEncoded e inp out v)"
proof (induction vs arbitrary: c)
  case Nil
  then show ?case by simp
next
  case (Cons v vs)
  from Cons.prems have ok: "variantEncoded e inp out v"
    and rec: "hlsLoop e inp out vs (c @ streamInf v) = Inr c'"
    by (auto simp: variantEncoded_def Let_def split: option.splits proc_exit.splits if_splits)
  from Cons.IH [OF rec] ok show ?case by simp
qed

lemma createHLSPlaylist_failed:
  "\<exists>v \<in> set vs. \<not> variantEncoded e inp out v \<Longrightarrow>
   fst (createHLSPlaylist e inp out vs) = [] \<and> isl (snd (createHLSPlaylist e inp out vs))"
  using hlsLoop_failed [of vs e inp out masterHeader]
  by (auto simp: createHLSPlaylist_def Let_def split: sum.splits)

lemma createHLSPlaylist_succeeded:
  "createHLSPlaylist e inp out vs = (files, Inr hls) \<Longrightarrow>
   hls = path_join out ''master.m3u8''
   \<and> files = [(path_join out ''master.m3u8'', masterHeader @ concat (map streamInf vs))]
   \<and> (\<forall>v \<in> set vs. variantEncoded e inp out v)"
  by (auto simp: createHLSPlaylist_def Let_def split: sum.splits option.splits
           dest: hlsLoop_succeeded)


lemma pipeline_failed:
  assumes "probe e inp = Inr info"
    and "\<exists>v \<in> set (generateOptimalVariants (probe_width info) (probe_height info) (duration info)).
           \<not> variantEncoded e inp out v"
  shows "fst (snd (processVideoWithAdaptiveStreaming e inp out opts)) = []
    \<and> isl (snd (snd (processVideoWithAdaptiveStreaming e inp out opts)))"
  using createHLSPlaylist_failed [OF assms(2)] assms(1)
  by (auto simp: processVideoWithAdaptiveStreaming_def Let_def split: option.splits sum.splits prod.splits)

lemma pipeline_succeeded:
  assumes "probe e inp = Inr info"
    and "snd (snd (processVideoWithAdaptiveStreaming e inp out opts)) = Inr res"
  shows "r_variants res = generateOptimalVariants (probe_width info) (probe_height info) (duration info)
    \<and> r_hlsPlaylist res = path_join out ''master.m3u8''
    \<and> fst (snd (processVideoWithAdaptiveStreaming e inp out opts))
         = [(path_join out ''master.m3u8'', masterHeader @ concat (map streamInf (r_variants res)))]
    \<and> (\<forall>v \<in> set (r_variants res). variantEncoded e inp out v)"
  using assms
  by (auto simp: processVideoWithAdaptiveStreaming_def Let_def
           split: option.splits sum.splits prod.splits dest!: createHLSPlaylist_succeeded)

subsection \<open>The history of a job\<close>

lemma run_writes_append:
  "run_writes q jobId (ws @ ws') =
     run_writes q jobId ws @ run_writes (last (q # run_writes q jobId ws)) jobId ws'"
  by (induction ws arbitrary: q) auto

lemma last_run_writes:
  "last (q # run_writes q jobId ws) = foldl (\<lambda>r w. apply_write r jobId w) q ws"
  by (induction ws arbitrary: q) simp_all

lemma apply_progress_entry:
  "q jobId = Some j \<Longrightarrow>
   apply_write q jobId (OnProgress p) jobId = Some (j\<lparr>status := ''processing'', progress := Some p\<rparr>)"
  by (simp add: withStatus_def)

lemma foldl_progress_entry:
  "q jobId = Some j \<Longrightarrow>
   foldl (\<lambda>r w. apply_write r jobId w) q (map (\<lambda>(p, stage). OnProgress p) calls) jobId =
     Some (if calls = [] then j
           else j\<lparr>status := ''processing'', progress := Some (fst (last calls))\<rparr>)"
proof (induction calls arbitrary: q j)
  case Nil
  then show ?case by simp
next
  case (Cons c calls)
  obtain p stage where c: "c = (p, stage)" by (cases c)
  have step: "apply_write q jobId (OnProgress p) jobId
      = Some (j\<lparr>status := ''processing'', progress := Some p\<rparr>)"
    using Cons.prems by (rule apply_progress_entry)
  from Cons.IH [of "apply_write q jobId (OnProgress p)"
      "j\<lparr>status := ''processing'', progress := Some p\<rparr>", OF step] c
  show ?case
    by (cases "calls = []") (simp_all del: apply_write.simps)
qed

lemma run_progress_values:
  "map (\<lambda>r. progressOf r jobId) (run_writes q jobId (map (\<lambda>(p, stage). OnProgress p) calls))
     = map (\<lambda>(p, stage). Some p) calls"
  by (induction calls arbitrary: q) (auto simp: progressOf_def getJobStatus_def)


text \<open>The entry a job ends with, from what its pipeline did.\<close>

lemma job_final_eq:
  "job_final q jobId now e inp out opts =
    (case processVideoWithAdaptiveStreaming e inp out opts of
       (calls, files, r) \<Rightarrow>
         Some (case r of
                 Inr res \<Rightarrow> \<lparr>status = ''completed'', progress = Some 100, result = Some res,
                             error = None, startTime = Some now\<rparr>
               | Inl x \<Rightarrow> \<lparr>status = ''error'',
                           progress = Some (if calls = [] then 0 else fst (last calls)),
                           result = None, error = Some x, startTime = Some now\<rparr>))"
proof -
  obtain calls files r where pv: "processVideoWithAdaptiveStreaming e inp out opts = (calls, files, r)"
    by (cases "processVideoWithAdaptiveStreaming e inp out opts") auto
  let ?j = "\<lparr>status = ''processing'', progress = Some 0, result = None, error = None,
             startTime = Some now\<rparr>"
  let ?q1 = "apply_write (addJob_set q jobId now) jobId SetProcessing"
  let ?f = "\<lambda>r w. apply_write r jobId w"
  let ?w = "case r of Inr res \<Rightarrow> SetCompleted res | Inl x \<Rightarrow> SetError x"
  have q1: "?q1 jobId = Some ?j" by (simp add: addJob_set_def withStatus_def)
  have "job_final q jobId now e inp out opts
      = foldl ?f (addJob_set q jobId now) (SetProcessing # map (\<lambda>(p, stage). OnProgress p) calls @ [?w]) jobId"
    unfolding job_final_def job_history_def processJob_def processJob_writes_def getJobStatus_def
    by (simp add: pv last_run_writes [symmetric] del: apply_write.simps)
  also have "\<dots> = apply_write (foldl ?f ?q1 (map (\<lambda>(p, stage). OnProgress p) calls)) jobId ?w jobId"
    by (simp del: apply_write.simps)
  also have "\<dots> = Some (case r of
                 Inr res \<Rightarrow> \<lparr>status = ''completed'', progress = Some 100, result = Some res,
                             error = None, startTime = Some now\<rparr>
               | Inl x \<Rightarrow> \<lparr>status = ''error'',
                           progress = Some (if calls = [] then 0 else fst (last calls)),
                           result = None, error = Some x, startTime = Some now\<rparr>)"
    using foldl_progress_entry [of ?q1 jobId ?j calls, OF q1]
    by (cases r) (simp_all add: withStatus_def)
  finally show ?thesis by (simp add: pv)
qed

lemma thumbnailStep_calls:
  "fst (thumbnailStep e inp out opts) = [] \<or> fst (thumbnailStep e inp out opts) = [(20, ''Generating thumbnails'')]"
  by (simp add: thumbnailStep_def Let_def split: option.splits)

lemma previewStep_calls:
  "fst (previewStep e inp out opts) = [] \<or> fst (previewStep e inp out opts) = [(30, ''Creating preview clip'')]"
  by (simp add: previewStep_def Let_def split: sum.splits)

lemma pipeline_calls:
  assumes "processVideoWithAdaptiveStreaming e inp out opts = (calls, files, r)"
  shows "sorted (map fst calls) \<and> (\<not> isl r \<longrightarrow> calls \<noteq> [] \<and> fst (last calls) = 100)"
proof -
  obtain p3 t where t: "thumbnailStep e inp out opts = (p3, t)" by (cases "thumbnailStep e inp out opts")
  obtain p4 v where v: "previewStep e inp out opts = (p4, v)" by (cases "previewStep e inp out opts")
  from thumbnailStep_calls [of e inp out opts] t
  have p3: "p3 = [] \<or> p3 = [(20, ''Generating thumbnails'')]" by simp
  from previewStep_calls [of e inp out opts] v
  have p4: "p4 = [] \<or> p4 = [(30, ''Creating preview clip'')]" by simp
  from assms p3 p4 show ?thesis
    by (auto simp: processVideoWithAdaptiveStreaming_def Let_def t v
             split: option.splits sum.splits prod.splits)
qed

text \<open>The progress values a job's entry goes through.\<close>

lemma job_history_progress:
  assumes "processVideoWithAdaptiveStreaming e inp out opts = (calls, files, r)"
  shows "map (\<lambda>r. progressOf r jobId) (job_history q jobId now e inp out opts)
     = map Some (0 # 0 # map fst calls
                  @ [if isl r then (if calls = [] then 0 else fst (last calls)) else 100])"
proof -
  let ?a = "addJob_set q jobId now"
  let ?q1 = "apply_write ?a jobId SetProcessing"
  let ?ws = "map (\<lambda>(p, stage). OnProgress p) calls"
  let ?w = "case r of Inr res \<Rightarrow> SetCompleted res | Inl x \<Rightarrow> SetError x"
  let ?h = "job_history q jobId now e inp out opts"
  have h: "?h = ?a # ?q1 # run_writes ?q1 jobId ?ws @ [last ?h]"
    unfolding job_history_def processJob_def processJob_writes_def
    by (simp add: assms run_writes_append del: apply_write.simps)
  have fin: "progressOf (last ?h) jobId
      = Some (if isl r then (if calls = [] then 0 else fst (last calls)) else 100)"
    using job_final_eq [of q jobId now e inp out opts]
    by (cases r) (simp_all add: assms job_final_def progressOf_def)
  have a: "progressOf ?a jobId = Some 0" and q1: "progressOf ?q1 jobId = Some 0"
    by (simp_all add: progressOf_def getJobStatus_def addJob_set_def withStatus_def)
  have "map (\<lambda>r. progressOf r jobId) ?h
      = map (\<lambda>r. progressOf r jobId) (?a # ?q1 # run_writes ?q1 jobId ?ws @ [last ?h])"
    using h by simp
  also have "\<dots> = Some 0 # Some 0 # map (\<lambda>(p, stage). Some p) calls
        @ [Some (if isl r then (if calls = [] then 0 else fst (last calls)) else 100)]"
    using a q1 fin by (simp add: run_progress_values del: apply_write.simps)
  also have "map (\<lambda>(p, stage). Some p) calls = map Some (map fst calls)"
    by (simp add: case_prod_beta comp_def)
  finally show ?thesis by simp
qed

subsection \<open>The sample worlds, evaluated\<close>

lemma hlsLoop_all_encoded:
  "(\<forall>v \<in> set vs. fs_mkdir e (path_join out (name v)) = None \<and> variantEncoded e inp out v) \<Longrightarrow>
   hlsLoop e inp out vs c = Inr (c @ concat (map streamInf vs))"
  by (induction vs arbitrary: c) (simp_all add: variantEncoded_def Let_def)

lemma sample_plan: "generateOptimalVariants 1920 1080 (Num 100) = map ladderVariant qualityConfigs"
  by (simp add: generateOptimalVariants_def qualityConfigs_def)

lemma sample_plan_names:
  "map name (generateOptimalVariants 1920 1080 (Num 100)) = [''360p'', ''480p'', ''720p'', ''1080p'']"
  by (simp add: sample_plan qualityConfigs_def ladderVariant_def)

lemma sample_thumbnails:
  "snd (generateThumbnails world_ok ''in.mp4'' ''out/thumbnails'' 5)
     = Inr [''out/thumbnails/thumbnail_1.jpg'', ''out/thumbnails/thumbnail_2.jpg'',
            ''out/thumbnails/thumbnail_3.jpg'', ''out/thumbnails/thumbnail_4.jpg'',
            ''out/thumbnails/thumbnail_5.jpg'']"
proof -
  have "\<forall>t p. ffmpeg_thumbnail world_ok ''in.mp4'' t p = Exited (Some 0)"
    by (simp add: world_ok_def)
  from generateThumbnails_all_ok [OF probe_world_ok this, of "''out/thumbnails''" 5]
  show ?thesis by (simp add: five_paths)
qed

lemma sample_thumbnailStep:
  "thumbnailStep world_ok ''in.mp4'' ''out'' no_options
     = ([(20, ''Generating thumbnails'')],
        Inr [''out/thumbnails/thumbnail_1.jpg'', ''out/thumbnails/thumbnail_2.jpg'',
            ''out/thumbnails/thumbnail_3.jpg'', ''out/thumbnails/thumbnail_4.jpg'',
            ''out/thumbnails/thumbnail_5.jpg''])"
proof -
  have "fs_mkdir world_ok (path_join ''out'' ''thumbnails'') = None" by (simp add: world_ok_def)
  moreover have "path_join ''out'' ''thumbnails'' = ''out/thumbnails''" by (simp add: path_join_def)
  ultimately show ?thesis
    by (simp add: thumbnailStep_def no_options_def sample_thumbnails)
qed

lemma sample_previewStep: "previewStep e ''in.mp4'' ''out'' no_options = ([], Inr None)"
  by (simp add: previewStep_def no_options_def)

lemma sample_hls:
  "createHLSPlaylist world_ok ''in.mp4'' ''out'' (generateOptimalVariants 1920 1080 (Num 100))
     = ([(''out/master.m3u8'',
          masterHeader @ concat (map streamInf (generateOptimalVariants 1920 1080 (Num 100))))],
        Inr ''out/master.m3u8'')"
proof -
  have "\<forall>v \<in> set (generateOptimalVariants 1920 1080 (Num 100)).
          fs_mkdir world_ok (path_join ''out'' (name v)) = None \<and> variantEncoded world_ok ''in.mp4'' ''out'' v"
    by (simp add: world_ok_def variantEncoded_def)
  from hlsLoop_all_encoded [OF this, of masterHeader] show ?thesis
    by (simp add: createHLSPlaylist_def Let_def world_ok_def path_join_def)
qed

lemma sample_pipeline:
  "processVideoWithAdaptiveStreaming world_ok ''in.mp4'' ''out'' no_options
     = ([(5, ''Analyzing video''), (10, ''Planning quality variants''),
         (20, ''Generating thumbnails''), (40, ''Creating adaptive streaming variants''),
         (100, ''Processing complete'')],
        [(''out/master.m3u8'',
          masterHeader @ concat (map streamInf (generateOptimalVariants 1920 1080 (Num 100))))],
        Inr \<lparr>r_hlsPlaylist = ''out/master.m3u8'',
             r_thumbnails = [''out/thumbnails/thumbnail_1.jpg'', ''out/thumbnails/thumbnail_2.jpg'',
               ''out/thumbnails/thumbnail_3.jpg'', ''out/thumbnails/thumbnail_4.jpg'',
               ''out/thumbnails/thumbnail_5.jpg''],
             r_preview = None,
             r_variants = generateOptimalVariants 1920 1080 (Num 100)\<rparr>)"
proof -
  have "fs_mkdir world_ok ''out'' = None" by (simp add: world_ok_def)
  then show ?thesis
    unfolding processVideoWithAdaptiveStreaming_def
    by (simp add: probe_world_ok sample_thumbnailStep sample_previewStep sample_hls Let_def)
qed


lemma probe_world_720p_fails: "probe world_720p_fails ''in.mp4'' =
  Inr \<lparr>duration = Num 100, probe_width = 1920, probe_height = 1080, probe_bitrate = Num 5000000,
       probe_fps = Num 30, probe_format = ''mov,mp4'', video_codec = ''h264'', audio_codec = ''aac''\<rparr>"
  by code_simp

lemma failing_thumbnails:
  "snd (generateThumbnails world_720p_fails ''in.mp4'' ''out/thumbnails'' 5)
     = Inr [''out/thumbnails/thumbnail_1.jpg'', ''out/thumbnails/thumbnail_2.jpg'',
            ''out/thumbnails/thumbnail_3.jpg'', ''out/thumbnails/thumbnail_4.jpg'',
            ''out/thumbnails/thumbnail_5.jpg'']"
proof -
  have "\<forall>t p. ffmpeg_thumbnail world_720p_fails ''in.mp4'' t p = Exited (Some 0)"
    by (simp add: world_720p_fails_def world_ok_def)
  from generateThumbnails_all_ok [OF probe_world_720p_fails this, of "''out/thumbnails''" 5]
  show ?thesis by (simp add: five_paths)
qed

lemma failing_thumbnailStep:
  "thumbnailStep world_720p_fails ''in.mp4'' ''out'' no_options
     = ([(20, ''Generating thumbnails'')],
        Inr [''out/thumbnails/thumbnail_1.jpg'', ''out/thumbnails/thumbnail_2.jpg'',
            ''out/thumbnails/thumbnail_3.jpg'', ''out/thumbnails/thumbnail_4.jpg'',
            ''out/thumbnails/thumbnail_5.jpg''])"
proof -
  have "fs_mkdir world_720p_fails (path_join ''out'' ''thumbnails'') = None"
    by (simp add: world_720p_fails_def world_ok_def)
  moreover have "path_join ''out'' ''thumbnails'' = ''out/thumbnails''" by (simp add: path_join_def)
  ultimately show ?thesis
    by (simp add: thumbnailStep_def no_options_def failing_thumbnails)
qed

lemma failing_encodes:
  "map (variantEncoded world_720p_fails ''in.mp4'' ''out'') (generateOptimalVariants 1920 1080 (Num 100))
     = [True, True, False, True]"
  by (simp add: sample_plan qualityConfigs_def ladderVariant_def variantEncoded_def
                world_720p_fails_def world_ok_def)

lemma failing_hls:
  "createHLSPlaylist world_720p_fails ''in.mp4'' ''out'' (generateOptimalVariants 1920 1080 (Num 100))
     = ([], Inl (HLSFailed ''720p''))"
  by (simp add: createHLSPlaylist_def sample_plan qualityConfigs_def ladderVariant_def Let_def
                world_720p_fails_def world_ok_def)

lemma failing_pipeline:
  "processVideoWithAdaptiveStreaming world_720p_fails ''in.mp4'' ''out'' no_options
     = ([(5, ''Analyzing video''), (10, ''Planning quality variants''),
         (20, ''Generating thumbnails''), (40, ''Creating adaptive streaming variants'')],
        [], Inl (HLSFailed ''720p''))"
proof -
  have "fs_mkdir world_720p_fails ''out'' = None" by (simp add: world_720p_fails_def world_ok_def)
  then show ?thesis
    unfolding processVideoWithAdaptiveStreaming_def
    by (simp add: probe_world_720p_fails failing_thumbnailStep sample_previewStep failing_hls Let_def)
qed

subsection \<open>Partial failure and progress\<close>

text \<open>
  C1, as stated, fails: for the 1080p sample source the planner gives four variants; when
  the encode of 720p fails and the other three succeed, the job ends with status
  \<^verbatim>\<open>error\<close> (error detail: HLS generation failed for 720p), with no result and no
  manifest written.
\<close>

theorem partial_failure_counterexample:
  "map_sum id (\<lambda>i. (probe_width i, probe_height i, duration i)) (probe world_720p_fails ''in.mp4'')
        = Inr (1920, 1080, Num 100)
   \<and> map name (generateOptimalVariants 1920 1080 (Num 100)) = [''360p'', ''480p'', ''720p'', ''1080p'']
   \<and> map (variantEncoded world_720p_fails ''in.mp4'' ''out'') (generateOptimalVariants 1920 1080 (Num 100))
        = [True, True, False, True]
   \<and> job_final Map.empty ''a'' 7 world_720p_fails ''in.mp4'' ''out'' no_options
        = Some \<lparr>status = ''error'', progress = Some 40, result = None,
                 error = Some (HLSFailed ''720p''), startTime = Some 7\<rparr>
   \<and> fst (snd (processVideoWithAdaptiveStreaming world_720p_fails ''in.mp4'' ''out'' no_options)) = []"
  by (simp add: probe_world_720p_fails sample_plan_names failing_encodes job_final_eq failing_pipeline)

text \<open>
  C1, amended: when the probe succeeds and the encode of any planned variant fails, the
  job ends with status \<^verbatim>\<open>error\<close>, no result is stored and no manifest is written;
  a job that ends with status \<^verbatim>\<open>completed\<close> has encoded every planned variant, its
  result lists all planned variants, and the manifest written lists all of them in the
  planner's order.
\<close>

theorem variant_failure_fails_job:
  assumes "probe e inp = Inr info"
  shows "((\<exists>v \<in> set (generateOptimalVariants (probe_width info) (probe_height info) (duration info)).
             \<not> variantEncoded e inp out v)
          \<longrightarrow> (\<exists>j. job_final q jobId now e inp out opts = Some j \<and> status j = ''error''
                    \<and> result j = None)
              \<and> fst (snd (processVideoWithAdaptiveStreaming e inp out opts)) = [])
     \<and> (\<forall>j. job_final q jobId now e inp out opts = Some j \<longrightarrow> status j = ''completed'' \<longrightarrow>
            (\<forall>v \<in> set (generateOptimalVariants (probe_width info) (probe_height info) (duration info)).
               variantEncoded e inp out v)
            \<and> (\<exists>res. result j = Some res
                  \<and> r_variants res
                       = generateOptimalVariants (probe_width info) (probe_height info) (duration info)
                  \<and> r_hlsPlaylist res = path_join out ''master.m3u8'')
            \<and> fst (snd (processVideoWithAdaptiveStreaming e inp out opts))
                 = [(path_join out ''master.m3u8'',
                     masterHeader @ concat (map streamInf
                       (generateOptimalVariants (probe_width info) (probe_height info) (duration info))))])"
proof (intro conjI impI allI)
  assume bad: "\<exists>v \<in> set (generateOptimalVariants (probe_width info) (probe_height info) (duration info)).
             \<not> variantEncoded e inp out v"
  from pipeline_failed [OF assms bad, of opts]
  show "fst (snd (processVideoWithAdaptiveStreaming e inp out opts)) = []" by simp
  from pipeline_failed [OF assms bad, of opts]
  have "isl (snd (snd (processVideoWithAdaptiveStreaming e inp out opts)))" by simp
  then show "\<exists>j. job_final q jobId now e inp out opts = Some j \<and> status j = ''error'' \<and> result j = None"
    by (auto simp: job_final_eq split: prod.splits sum.splits)
next
  fix j
  assume j: "job_final q jobId now e inp out opts = Some j" "status j = ''completed''"
  then obtain res where res: "snd (snd (processVideoWithAdaptiveStreaming e inp out opts)) = Inr res"
    and jr: "result j = Some res"
    by (auto simp: job_final_eq split: prod.splits sum.splits)
  note ok = pipeline_succeeded [OF assms res]
  from ok show "\<forall>v \<in> set (generateOptimalVariants (probe_width info) (probe_height info) (duration info)).
               variantEncoded e inp out v" by simp
  from ok jr show "\<exists>res. result j = Some res
                  \<and> r_variants res
                       = generateOptimalVariants (probe_width info) (probe_height info) (duration info)
                  \<and> r_hlsPlaylist res = path_join out ''master.m3u8''" by simp
  from ok show "fst (snd (processVideoWithAdaptiveStreaming e inp out opts))
                 = [(path_join out ''master.m3u8'',
                     masterHeader @ concat (map streamInf
                       (generateOptimalVariants (probe_width info) (probe_height info) (duration info))))]"
    by simp
qed

theorem variant_failure_fails_job_witness:
  "(\<exists>v \<in> set (generateOptimalVariants 1920 1080 (Num 100)).
       \<not> variantEncoded world_720p_fails ''in.mp4'' ''out'' v)
   \<and> (\<exists>j. job_final Map.empty ''a'' 7 world_720p_fails ''in.mp4'' ''out'' no_options = Some j
          \<and> status j = ''error'' \<and> result j = None)
   \<and> map_option status (job_final Map.empty ''a'' 7 world_ok ''in.mp4'' ''out'' no_options)
        = Some ''completed''
   \<and> map (variantEncoded world_ok ''in.mp4'' ''out'') (generateOptimalVariants 1920 1080 (Num 100))
        = [True, True, True, True]
   \<and> fst (snd (processVideoWithAdaptiveStreaming world_ok ''in.mp4'' ''out'' no_options))
        = [(''out/master.m3u8'',
            masterHeader @ concat (map streamInf (generateOptimalVariants 1920 1080 (Num 100))))]"
proof -
  have bad: "\<exists>v \<in> set (generateOptimalVariants 1920 1080 (Num 100)).
       \<not> variantEncoded world_720p_fails ''in.mp4'' ''out'' v"
    using failing_encodes by (auto simp: sample_plan qualityConfigs_def)
  have compl: "map_option status (job_final Map.empty ''a'' 7 world_ok ''in.mp4'' ''out'' no_options)
        = Some ''completed''"
    by (simp add: job_final_eq sample_pipeline)
  from compl obtain j where j: "job_final Map.empty ''a'' 7 world_ok ''in.mp4'' ''out'' no_options = Some j"
    "status j = ''completed''" by auto
  from variant_failure_fails_job [OF probe_world_720p_fails, of "''out''" Map.empty "''a''" 7 no_options] bad
  have 1: "\<exists>j. job_final Map.empty ''a'' 7 world_720p_fails ''in.mp4'' ''out'' no_options = Some j
          \<and> status j = ''error'' \<and> result j = None" by simp
  from variant_failure_fails_job [OF probe_world_ok, of "''out''" Map.empty "''a''" 7 no_options] j
  have 2: "(\<forall>v \<in> set (generateOptimalVariants 1920 1080 (Num 100)).
          variantEncoded world_ok ''in.mp4'' ''out'' v)
   \<and> fst (snd (processVideoWithAdaptiveStreaming world_ok ''in.mp4'' ''out'' no_options))
        = [(''out/master.m3u8'',
            masterHeader @ concat (map streamInf (generateOptimalVariants 1920 1080 (Num 100))))]"
    by (simp add: path_join_def)
  from 2 have 3: "map (variantEncoded world_ok ''in.mp4'' ''out'') (generateOptimalVariants 1920 1080 (Num 100))
        = [True, True, True, True]"
    by (simp add: sample_plan qualityConfigs_def)
  from bad 1 compl 2 3 show ?thesis by blast
qed

lemma sorted_le_last: "sorted xs \<Longrightarrow> x \<in> set xs \<Longrightarrow> x \<le> last (xs :: nat list)"
  by (induction xs) auto

text \<open>The history of a job is the run of its own operations, alone on its entry.\<close>

lemma run_ops_writes: "run_ops q jobId (map OpWrite ws) = run_writes q jobId ws"
  by (induction ws arbitrary: q) simp_all

lemma job_history_ops:
  "job_history q jobId now e inp out opts = run_ops q jobId (job_ops now e inp out opts)"
  by (simp add: job_history_def job_ops_def processJob_def run_ops_writes)

lemma sample_job_ops:
  "job_ops now world_ok ''in.mp4'' ''out'' no_options =
     [OpAdd now, OpWrite SetProcessing, OpWrite (OnProgress 5), OpWrite (OnProgress 10),
      OpWrite (OnProgress 20), OpWrite (OnProgress 40), OpWrite (OnProgress 100),
      OpWrite (SetCompleted
        \<lparr>r_hlsPlaylist = ''out/master.m3u8'',
         r_thumbnails = [''out/thumbnails/thumbnail_1.jpg'', ''out/thumbnails/thumbnail_2.jpg'',
               ''out/thumbnails/thumbnail_3.jpg'', ''out/thumbnails/thumbnail_4.jpg'',
               ''out/thumbnails/thumbnail_5.jpg''],
         r_preview = None,
         r_variants = generateOptimalVariants 1920 1080 (Num 100)\<rparr>)]"
  by (simp add: job_ops_def processJob_writes_def sample_pipeline)

text \<open>
  C6, as stated, fails: \<^verbatim>\<open>addJob\<close> accepts the id of a running job (C3), and then both
  pipelines write the same entry. In the sample world a first job reaches progress 40,
  a second \<^verbatim>\<open>addJob\<close> with its id resets the stored progress to 0, and the first job
  then completes: over its execution the stored progress went 0, 0, 5, 10, 20, 40, 0, 0,
  100, 100.
\<close>

theorem reused_id_counterexample:
  "reused_id_ops \<in> shuffles (job_ops 7 world_ok ''in.mp4'' ''out'' no_options)
                      (job_ops 9 world_ok ''in.mp4'' ''out'' no_options)
   \<and> map (\<lambda>r. progressOf r ''a'') (take 10 (run_ops Map.empty ''a'' reused_id_ops))
        = map Some [0, 0, 5, 10, 20, 40, 0, 0, 100, 100]
   \<and> map_option status (getJobStatus (run_ops Map.empty ''a'' reused_id_ops ! 9) ''a'')
        = Some ''completed''
   \<and> \<not> sorted [0, 0, 5, 10, 20, 40, 0, 0, 100, 100 :: nat]"
proof (intro conjI)
  show "reused_id_ops \<in> shuffles (job_ops 7 world_ok ''in.mp4'' ''out'' no_options)
                      (job_ops 9 world_ok ''in.mp4'' ''out'' no_options)"
    unfolding reused_id_ops_def sample_job_ops
    by (simp del: shuffles.simps)
       (intro Cons_in_shuffles_leftI Cons_in_shuffles_rightI, simp)
  show "map (\<lambda>r. progressOf r ''a'') (take 10 (run_ops Map.empty ''a'' reused_id_ops))
        = map Some [0, 0, 5, 10, 20, 40, 0, 0, 100, 100]"
    unfolding reused_id_ops_def sample_job_ops
    by (simp add: progressOf_def getJobStatus_def addJob_set_def withStatus_def)
  show "map_option status (getJobStatus (run_ops Map.empty ''a'' reused_id_ops ! 9) ''a'')
        = Some ''completed''"
    unfolding reused_id_ops_def sample_job_ops
    by (simp add: getJobStatus_def addJob_set_def withStatus_def)
  show "\<not> sorted [0, 0, 5, 10, 20, 40, 0, 0, 100, 100 :: nat]" by simp
qed

text \<open>
  C6, amended: for every job whose entry no other job writes during its execution (its
  id is not passed to \<^verbatim>\<open>addJob\<close> again while it runs), the progress values stored in its
  entry, from the entry \<^verbatim>\<open>addJob\<close> stores through every write of its \<^verbatim>\<open>processJob\<close>,
  are non-decreasing, and when the job ends with status \<^verbatim>\<open>completed\<close> the last one is
  100.
\<close>

theorem progress_monotone:
  "job_history q jobId now e inp out opts = run_ops q jobId (job_ops now e inp out opts)
   \<and> (\<exists>ps. map (\<lambda>r. progressOf r jobId) (job_history q jobId now e inp out opts) = map Some ps
       \<and> sorted ps
       \<and> (map_option status (job_final q jobId now e inp out opts) = Some ''completed''
            \<longrightarrow> last ps = 100))"
proof -
  obtain calls files r where pv: "processVideoWithAdaptiveStreaming e inp out opts = (calls, files, r)"
    by (cases "processVideoWithAdaptiveStreaming e inp out opts") auto
  let ?fin = "if isl r then (if calls = [] then 0 else fst (last calls)) else 100"
  let ?ps = "0 # 0 # map fst calls @ [?fin]"
  from pipeline_calls [OF pv] have s: "sorted (map fst calls)"
    and c: "\<not> isl r \<longrightarrow> calls \<noteq> [] \<and> fst (last calls) = 100" by simp_all
  have le: "\<forall>x \<in> set (map fst calls). x \<le> ?fin"
  proof (cases "calls = []")
    case True
    then show ?thesis by simp
  next
    case False
    then have "map fst calls \<noteq> []" by simp
    from s this have "\<forall>x \<in> set (map fst calls). x \<le> last (map fst calls)"
      using sorted_le_last by blast
    moreover have "last (map fst calls) = fst (last calls)" using False by (simp add: last_map)
    ultimately show ?thesis using c False by auto
  qed
  have "sorted ?ps" using s le by (simp add: sorted_append)
  moreover have "map_option status (job_final q jobId now e inp out opts) = Some ''completed''
       \<longrightarrow> last ?ps = 100"
    by (cases r) (simp_all add: job_final_eq pv)
  moreover note job_history_progress [OF pv, of jobId q now]
  ultimately show ?thesis using job_history_ops [of q jobId now e inp out opts] by blast
qed

theorem progress_monotone_witness:
  "map (\<lambda>r. progressOf r ''a'') (job_history Map.empty ''a'' 7 world_ok ''in.mp4'' ''out'' no_options)
     = map Some [0, 0, 5, 10, 20, 40, 100, 100]
   \<and> map_option status (job_final Map.empty ''a'' 7 world_ok ''in.mp4'' ''out'' no_options)
       = Some ''completed''
   \<and> (\<exists>ps. map (\<lambda>r. progressOf r ''a'') (job_history Map.empty ''a'' 7 world_ok ''in.mp4'' ''out'' no_options)
          = map Some ps \<and> sorted ps \<and> last ps = 100)"
proof -
  have h: "map (\<lambda>r. progressOf r ''a'') (job_history Map.empty ''a'' 7 world_ok ''in.mp4'' ''out'' no_options)
     = map Some [0, 0, 5, 10, 20, 40, 100, 100]"
    by (simp add: job_history_progress [OF sample_pipeline])
  have c: "map_option status (job_final Map.empty ''a'' 7 world_ok ''in.mp4'' ''out'' no_options)
       = Some ''completed''"
    by (simp add: job_final_eq sample_pipeline)
  from progress_monotone [of Map.empty "''a''" 7 world_ok "''in.mp4''" "''out''" no_options] c
  have "\<exists>ps. map (\<lambda>r. progressOf r ''a'') (job_history Map.empty ''a'' 7 world_ok ''in.mp4'' ''out'' no_options)
          = map Some ps \<and> sorted ps \<and> last ps = 100" by blast
  with h c show ?thesis by blast
qed

subsection \<open>The registry\<close>

text \<open>
  C3, as stated, fails: \<^verbatim>\<open>addJob\<close> on an id whose job is being processed (progress 40)
  does not reject, and it replaces the entry by a fresh one.
\<close>

theorem addJob_duplicate_counterexample:
  "map_option status (getJobStatus q_processing ''a'') = Some ''processing''
   \<and> fst (addJob q_processing ''a'' ''in.mp4'' ''out'' no_options 9) = Inr ()
   \<and> getJobStatus (addJob_set q_processing ''a'' 9) ''a''
        = Some \<lparr>status = ''queued'', progress = Some 0, result = None, error = None,
                 startTime = Some 9\<rparr>
   \<and> getJobStatus (snd (addJob q_processing ''a'' ''in.mp4'' ''out'' no_options 9)) ''a'' \<noteq> getJobStatus q_processing ''a''"
  by (simp add: q_processing_def addJob_def addJob_set_def getJobStatus_def withStatus_def)

text \<open>
  C3, amended: \<^verbatim>\<open>addJob\<close> has no duplicate check and never rejects. For every id,
  present or not and whatever its status, it stores a fresh entry with status
  \<^verbatim>\<open>queued\<close>, progress 0 and the current start time in place of any existing one, and
  starts the processing at once, so that the stored status is \<^verbatim>\<open>processing\<close> when
  \<^verbatim>\<open>addJob\<close> returns; the entries of other ids are unchanged.
\<close>

theorem addJob_always_inserts:
  "fst (addJob q jobId inp out opts now) = Inr ()
   \<and> getJobStatus (addJob_set q jobId now) jobId
        = Some \<lparr>status = ''queued'', progress = Some 0, result = None, error = None,
                 startTime = Some now\<rparr>
   \<and> getJobStatus (snd (addJob q jobId inp out opts now)) jobId
        = Some \<lparr>status = ''processing'', progress = Some 0, result = None, error = None,
                 startTime = Some now\<rparr>
   \<and> (\<forall>other. other \<noteq> jobId \<longrightarrow>
          getJobStatus (snd (addJob q jobId inp out opts now)) other = getJobStatus q other)"
  by (simp add: addJob_def addJob_set_def getJobStatus_def withStatus_def)

theorem addJob_always_inserts_witness:
  "getJobStatus (addJob_set q_processing ''a'' 9) ''a''
        = Some \<lparr>status = ''queued'', progress = Some 0, result = None, error = None,
                 startTime = Some 9\<rparr>
   \<and> getJobStatus (snd (addJob q_processing ''a'' ''in.mp4'' ''out'' no_options 9)) ''b'' = None
   \<and> getJobStatus (snd (addJob Map.empty ''a'' ''in.mp4'' ''out'' no_options 9)) ''a''
        = Some \<lparr>status = ''processing'', progress = Some 0, result = None, error = None,
                 startTime = Some 9\<rparr>"
  using addJob_always_inserts [of q_processing "''a''" "''in.mp4''" "''out''" no_options 9]
    addJob_always_inserts [of Map.empty "''a''" "''in.mp4''" "''out''" no_options 9]
  by (simp add: q_processing_def getJobStatus_def)








text \<open>Every write stores one of four status strings, and a delete stores none.\<close>

lemma reachable_statuses:
  "reachable q \<Longrightarrow> q jobId = Some j \<Longrightarrow>
   status j \<in> {''queued'', ''processing'', ''completed'', ''error''}"
proof (induction arbitrary: jobId j rule: reachable.induct)
  case r_init
  then show ?case by simp
next
  case (r_add q i now)
  then show ?case by (cases "jobId = i") (auto simp: addJob_set_def)
next
  case (r_write q i w)
  then show ?case
    by (cases w; cases "jobId = i") (auto simp: withStatus_def split: option.splits)
next
  case (r_cancel q i)
  then show ?case
    by (cases "jobId = i") (auto simp: cancelJob_def split: option.splits if_splits)
qed

text \<open>
  C10: in every registry the class can hold, each entry has status \<^verbatim>\<open>queued\<close>,
  \<^verbatim>\<open>processing\<close>, \<^verbatim>\<open>completed\<close> or \<^verbatim>\<open>error\<close>, never \<^verbatim>\<open>cancelled\<close>; and when
  \<^verbatim>\<open>cancelJob\<close> returns true the entry is deleted, so that a status query on the
  resulting registry (again one the class can hold) finds nothing.
\<close>

theorem registry_statuses:
  assumes "reachable q"
  shows "(\<forall>jobId j. getJobStatus q jobId = Some j \<longrightarrow>
            status j \<in> {''queued'', ''processing'', ''completed'', ''error''}
            \<and> status j \<noteq> ''cancelled'')
       \<and> (\<forall>jobId. fst (cancelJob q jobId) \<longrightarrow>
            getJobStatus (snd (cancelJob q jobId)) jobId = None
            \<and> reachable (snd (cancelJob q jobId)))"
proof (intro conjI allI impI)
  fix jobId j
  assume "getJobStatus q jobId = Some j"
  with reachable_statuses [OF assms, of jobId j]
  show s: "status j \<in> {''queued'', ''processing'', ''completed'', ''error''}"
    by (simp add: getJobStatus_def)
  then show "status j \<noteq> ''cancelled''" by auto
next
  fix jobId
  assume "fst (cancelJob q jobId)"
  then show "getJobStatus (snd (cancelJob q jobId)) jobId = None"
    by (auto simp: cancelJob_def getJobStatus_def split: option.splits if_splits)
  show "reachable (snd (cancelJob q jobId))" using assms by (rule r_cancel)
qed

theorem registry_statuses_witness:
  "reachable q_queued
   \<and> getJobStatus q_queued ''a''
      = Some \<lparr>status = ''queued'', progress = Some 0, result = None, error = None, startTime = Some 7\<rparr>
   \<and> status \<lparr>status = ''queued'', progress = Some 0, result = None, error = None, startTime = Some 7\<rparr>
        \<noteq> ''cancelled''
   \<and> fst (cancelJob q_queued ''a'')
   \<and> getJobStatus (snd (cancelJob q_queued ''a'')) ''a'' = None"
proof -
  have r: "reachable q_queued" unfolding q_queued_def by (rule r_add) (rule r_init)
  have 1: "getJobStatus q_queued ''a''
      = Some \<lparr>status = ''queued'', progress = Some 0, result = None, error = None, startTime = Some 7\<rparr>"
    by (simp add: q_queued_def addJob_set_def getJobStatus_def)
  have 2: "fst (cancelJob q_queued ''a'')"
    by (simp add: q_queued_def addJob_set_def cancelJob_def)
  from registry_statuses [OF r] 2
  have 3: "getJobStatus (snd (cancelJob q_queued ''a'')) ''a'' = None" by blast
  from registry_statuses [OF r] 1
  have "status \<lparr>status = ''queued'', progress = Some 0, result = None, error = None, startTime = Some 7\<rparr>
        \<noteq> ''cancelled''" by blast
  with r 1 2 3 show ?thesis by blast
qed

end
